theory Spec2Isabelle
  imports Complex_Main "HOL-Library.AList" "HOL-Library.Char_ord" "HOL-Library.List_Lexorder"
begin

section \<open>The input poller (core/gamepad\_manager.py, class GamepadWorker)\<close>

text \<open>
  The signals of \<open>GamepadWorker\<close>. Python floats are modelled as reals: the poller only
  compares them (\<open>abs(value) > self.deadzone\<close>), and comparison of floats that are not
  NaN agrees with comparison of the reals they denote.
\<close>

datatype event =
    ButtonPressed int
  | ButtonReleased int
  | AxisMoved int real
  | Connected string
  | Disconnected

text \<open>
  What the device backend reports in one iteration of the polling loop: the name of
  joystick 0 and the instantaneous state of its buttons, axes and hats. The sample is
  \<open>None\<close> when \<open>pygame.joystick.get_count()\<close> is 0.
\<close>

record device =
  dev_name :: string
  dev_buttons :: "bool list"
  dev_axes :: "real list"
  dev_hats :: "(int \<times> int) list"

text \<open>
  The fields of the worker that the loop reads and writes; \<open>joystick\<close> is True when
  \<open>self.joystick\<close> is not None.
\<close>

record worker =
  joystick :: bool
  last_button_states :: "int \<rightharpoonup> bool"
  last_hat_state :: "int \<times> int"
  deadzone :: real

definition init_worker :: worker where
  "init_worker =
     \<lparr>joystick = False, last_button_states = Map.empty, last_hat_state = (0, 0),
      deadzone = 2 / 10\<rparr>"

text \<open>The dictionary \<open>hat_buttons\<close> of \<open>GamepadWorker.run\<close>, in the order of the source.\<close>

definition hat_buttons :: "int \<times> int \<rightharpoonup> int" where
  "hat_buttons = map_of
     [((0, 1), 12), ((0, - 1), 13), ((- 1, 0), 14), ((1, 0), 15),
      ((1, 1), 12), ((- 1, 1), 12), ((1, - 1), 13), ((- 1, - 1), 13)]"

text \<open>
  The button loop: \<open>for i in range(get_numbuttons())\<close>, started at index \<open>i\<close>, over the
  remaining button states. It returns the events in the order they are emitted and the
  updated \<open>last_button_states\<close>.
\<close>

fun poll_buttons :: "(int \<rightharpoonup> bool) \<Rightarrow> int \<Rightarrow> bool list \<Rightarrow> event list \<times> (int \<rightharpoonup> bool)" where
  "poll_buttons prev i [] = ([], prev)"
| "poll_buttons prev i (pressed # rest) =
     (let was_pressed = (case prev i of None \<Rightarrow> False | Some b \<Rightarrow> b);
          evs = (if pressed \<and> \<not> was_pressed then [ButtonPressed i]
                 else if \<not> pressed \<and> was_pressed then [ButtonReleased i]
                 else []);
          (evs', prev') = poll_buttons (prev(i \<mapsto> pressed)) (i + 1) rest
      in (evs @ evs', prev'))"

text \<open>The axis loop, started at index \<open>i\<close>.\<close>

fun poll_axes :: "real \<Rightarrow> int \<Rightarrow> real list \<Rightarrow> event list" where
  "poll_axes dz i [] = []"
| "poll_axes dz i (v # rest) =
     (if \<bar>v\<bar> > dz then [AxisMoved i v] else []) @ poll_axes dz (i + 1) rest"

text \<open>
  The body of the hat loop for one hat reading \<open>hat\<close> against \<open>self.last_hat_state\<close>:
  the events emitted and the new \<open>last_hat_state\<close>.
\<close>

definition poll_hat :: "int \<times> int \<Rightarrow> int \<times> int \<Rightarrow> event list \<times> (int \<times> int)" where
  "poll_hat prev hat =
     (if hat \<noteq> prev then
        ((case hat_buttons prev of Some b \<Rightarrow> [ButtonReleased b] | None \<Rightarrow> []) @
         (case hat_buttons hat of Some b \<Rightarrow> [ButtonPressed b] | None \<Rightarrow> []),
         hat)
      else ([], prev))"

text \<open>
  The hat loop \<open>for i in range(get_numhats())\<close>. All hats share the one field
  \<open>last_hat_state\<close>, so the loop over the hats of one iteration and the succession of
  iterations are the same fold over hat readings.
\<close>

fun poll_hats :: "int \<times> int \<Rightarrow> (int \<times> int) list \<Rightarrow> event list \<times> (int \<times> int)" where
  "poll_hats prev [] = ([], prev)"
| "poll_hats prev (hat # rest) =
     (let (evs, prev') = poll_hat prev hat;
          (evs', prev'') = poll_hats prev' rest
      in (evs @ evs', prev''))"

text \<open>One iteration of the \<open>while self.running\<close> loop of \<open>GamepadWorker.run\<close>.\<close>

definition poll :: "worker \<Rightarrow> device option \<Rightarrow> event list \<times> worker" where
  "poll w sample =
     (let (conn, w1) =
            (case sample of
               Some d \<Rightarrow>
                 if \<not> joystick w then ([Connected (dev_name d)], w\<lparr>joystick := True\<rparr>)
                 else ([], w)
             | None \<Rightarrow>
                 if joystick w then ([Disconnected], w\<lparr>joystick := False\<rparr>)
                 else ([], w))
      in case sample of
           Some d \<Rightarrow>
             if joystick w1 then
               (let (bevs, prev') = poll_buttons (last_button_states w1) 0 (dev_buttons d);
                    aevs = poll_axes (deadzone w1) 0 (dev_axes d);
                    (hevs, hat') = poll_hats (last_hat_state w1) (dev_hats d)
                in (conn @ bevs @ aevs @ hevs,
                    w1\<lparr>last_button_states := prev', last_hat_state := hat'\<rparr>))
             else (conn, w1)
         | None \<Rightarrow> (conn, w1))"

text \<open>
  The loop itself, over the samples of successive iterations (the loop runs until
  \<open>stop\<close> clears \<open>running\<close>, so any finite number of iterations is a run).
\<close>

fun run :: "worker \<Rightarrow> device option list \<Rightarrow> event list \<times> worker" where
  "run w [] = ([], w)"
| "run w (sample # rest) =
     (let (evs, w') = poll w sample;
          (evs', w'') = run w' rest
      in (evs @ evs', w''))"

text \<open>
  The virtual buttons that a listener holds pressed after a sequence of events: a press
  adds the button, a release removes it. This is the notion the hat claims speak of; it is
  not part of the source.
\<close>

fun press_release :: "int set \<Rightarrow> event \<Rightarrow> int set" where
  "press_release S (ButtonPressed b) = insert b S"
| "press_release S (ButtonReleased b) = S - {b}"
| "press_release S _ = S"

definition held :: "int set \<Rightarrow> event list \<Rightarrow> int set" where
  "held S evs = foldl press_release S evs"

text \<open>The buttons held on account of the hat state \<open>h\<close>.\<close>

definition hat_held :: "int \<times> int \<Rightarrow> int set" where
  "hat_held h = (case hat_buttons h of Some b \<Rightarrow> {b} | None \<Rightarrow> {})"

text \<open>
  The polling loop once more, with every event marked by the part of the iteration whose
  \<open>emit\<close> call produces it: the connection check (lines 50-57), the button loop
  (lines 62-71), the axis loop (lines 74-77) or the hat loop (lines 80-107). The code is
  the same as in \<open>poll\<close> and \<open>run\<close>; the marks only record where in the source
  an event comes from, so that the events of the hat loop can be told from the events of
  real buttons that carry the same index.
\<close>

datatype origin = ConnectionCheck | ButtonLoop | AxisLoop | HatLoop

definition poll_tagged :: "worker \<Rightarrow> device option \<Rightarrow> (origin \<times> event) list \<times> worker" where
  "poll_tagged w sample =
     (let (conn, w1) =
            (case sample of
               Some d \<Rightarrow>
                 if \<not> joystick w then ([Connected (dev_name d)], w\<lparr>joystick := True\<rparr>)
                 else ([], w)
             | None \<Rightarrow>
                 if joystick w then ([Disconnected], w\<lparr>joystick := False\<rparr>)
                 else ([], w))
      in case sample of
           Some d \<Rightarrow>
             if joystick w1 then
               (let (bevs, prev') = poll_buttons (last_button_states w1) 0 (dev_buttons d);
                    aevs = poll_axes (deadzone w1) 0 (dev_axes d);
                    (hevs, hat') = poll_hats (last_hat_state w1) (dev_hats d)
                in (map (Pair ConnectionCheck) conn @ map (Pair ButtonLoop) bevs @
                    map (Pair AxisLoop) aevs @ map (Pair HatLoop) hevs,
                    w1\<lparr>last_button_states := prev', last_hat_state := hat'\<rparr>))
             else (map (Pair ConnectionCheck) conn, w1)
         | None \<Rightarrow> (map (Pair ConnectionCheck) conn, w1))"

fun run_tagged :: "worker \<Rightarrow> device option list \<Rightarrow> (origin \<times> event) list \<times> worker" where
  "run_tagged w [] = ([], w)"
| "run_tagged w (sample # rest) =
     (let (evs, w') = poll_tagged w sample;
          (evs', w'') = run_tagged w' rest
      in (evs @ evs', w''))"

text \<open>The events of the hat loop among marked events, in order.\<close>

definition hat_part :: "(origin \<times> event) list \<Rightarrow> event list" where
  "hat_part tevs = map snd (filter (\<lambda>te. fst te = HatLoop) tevs)"

text \<open>The hat readings that the loop meets over a sequence of samples, in order.\<close>

definition hat_readings :: "device option list \<Rightarrow> (int \<times> int) list" where
  "hat_readings samples =
     concat (map (\<lambda>sample. case sample of Some d \<Rightarrow> dev_hats d | None \<Rightarrow> []) samples)"

text \<open>The indices of the virtual d-pad buttons, and the button events that carry one.\<close>

definition dpad :: "int set" where
  "dpad = {12, 13, 14, 15}"

fun dpad_event :: "event \<Rightarrow> bool" where
  "dpad_event (ButtonPressed b) = (b \<in> dpad)"
| "dpad_event (ButtonReleased b) = (b \<in> dpad)"
| "dpad_event _ = False"

text \<open>A device with a single hat and neither buttons nor axes, reading \<open>h\<close>.\<close>

definition hat_only :: "int \<times> int \<Rightarrow> device" where
  "hat_only h = \<lparr>dev_name = ''pad'', dev_buttons = [], dev_axes = [], dev_hats = [h]\<rparr>"


section \<open>Python values\<close>

text \<open>
  The mapping and the analog settings of the manager are Python dictionaries, and after
  \<open>load_profile\<close> they are whatever \<open>json.load\<close> returned. They are modelled as
  dynamically typed values. A dictionary is an association list in insertion order with
  unique keys; a key is an int (\<open>DEFAULT_MAPPINGS\<close>, \<open>set_mapping\<close>) or a str (every key
  of a JSON object). Numbers are reals.
\<close>

datatype key = KInt int | KStr string

datatype pyval =
    PNone
  | PBool bool
  | PNum real
  | PStr string
  | PList "pyval list"
  | PDict "(key \<times> pyval) list"

datatype error =
    AttributeError
  | TypeError
  | KeyError
  | IndexError
  | ZeroDivisionError
  | UnicodeDecodeError

text \<open>Truth value testing, as in \<open>if profile:\<close>.\<close>

fun truthy :: "pyval \<Rightarrow> bool" where
  "truthy PNone = False"
| "truthy (PBool b) = b"
| "truthy (PNum x) = (x \<noteq> 0)"
| "truthy (PStr s) = (s \<noteq> [])"
| "truthy (PList xs) = (xs \<noteq> [])"
| "truthy (PDict kvs) = (kvs \<noteq> [])"

text \<open>\<open>d.get(k, default)\<close>: only a dict has the method.\<close>

fun dict_get :: "pyval \<Rightarrow> key \<Rightarrow> pyval \<Rightarrow> error + pyval" where
  "dict_get (PDict kvs) k dflt = Inr (case map_of kvs k of Some v \<Rightarrow> v | None \<Rightarrow> dflt)"
| "dict_get _ k dflt = Inl AttributeError"

text \<open>\<open>d[k]\<close> for a str key \<open>k\<close>: a missing key raises KeyError, and no other value can be
  subscripted with a str.\<close>

fun getitem :: "pyval \<Rightarrow> string \<Rightarrow> error + pyval" where
  "getitem (PDict kvs) k =
     (case map_of kvs (KStr k) of Some v \<Rightarrow> Inr v | None \<Rightarrow> Inl KeyError)"
| "getitem _ k = Inl TypeError"

text \<open>\<open>d[k] = v\<close>: a dict stores the item (a new key goes last); a list accepts an int
  index within range; everything else raises TypeError.\<close>

fun setitem :: "pyval \<Rightarrow> key \<Rightarrow> pyval \<Rightarrow> error + pyval" where
  "setitem (PDict kvs) k v = Inr (PDict (AList.update k v kvs))"
| "setitem (PList xs) (KInt i) v =
     (let n = int (length xs); j = (if i < 0 then i + n else i)
      in if 0 \<le> j \<and> j < n then Inr (PList (xs[nat j := v])) else Inl IndexError)"
| "setitem _ k v = Inl TypeError"

text \<open>\<open>value *= s\<close> for a float \<open>value\<close>: \<open>s\<close> must be a number (a bool counts as 0 or 1).\<close>

fun float_mul :: "real \<Rightarrow> pyval \<Rightarrow> error + real" where
  "float_mul x (PNum s) = Inr (x * s)"
| "float_mul x (PBool b) = Inr (x * (if b then 1 else 0))"
| "float_mul x _ = Inl TypeError"

text \<open>Decimal formatting of an int, as in \<open>f'axis_{axis_index}'\<close>.\<close>

fun str_nat :: "nat \<Rightarrow> string" where
  "str_nat n =
     (if n < 10 then [''0123456789'' ! n] else str_nat (n div 10) @ [''0123456789'' ! (n mod 10)])"

declare str_nat.simps [simp del]

definition str_int :: "int \<Rightarrow> string" where
  "str_int i = (if i < 0 then CHR ''-'' # str_nat (nat (- i)) else str_nat (nat i))"

section \<open>The profile store (core/config\_manager.py, class ConfigManager)\<close>

text \<open>
  What \<open>json.load\<close> does with a file: it raises UnicodeDecodeError when the bytes are
  not text in the default encoding, it raises JSONDecodeError when the text is not JSON,
  and it returns the value otherwise.
\<close>

datatype contents = Undecodable | NotJson | Json pyval

text \<open>
  The state of the \<open>ConfigManager\<close> that the profile operations use: the entry
  \<open>'active_profile'\<close> of \<open>_config\<close> (None when the key is absent), and the directory
  \<open>profiles_dir\<close> as an association list from file names to file contents. A profile
  name is taken to be a plain file name, without path separators.
\<close>

record config_manager =
  active_profile :: "string option"
  profiles_dir :: "(string \<times> contents) list"

text \<open>\<open>json.dump\<close> followed by \<open>json.load\<close>: every key of an object becomes a str, and of
  two keys with the same text the later value is kept.\<close>

definition key_str :: "key \<Rightarrow> string" where
  "key_str k = (case k of KInt i \<Rightarrow> str_int i | KStr s \<Rightarrow> s)"

definition json_object :: "(key \<times> pyval) list \<Rightarrow> (key \<times> pyval) list" where
  "json_object kvs = foldl (\<lambda>acc (k, v). AList.update (KStr (key_str k)) v acc) [] kvs"

primrec json_roundtrip :: "pyval \<Rightarrow> pyval" where
  "json_roundtrip PNone = PNone"
| "json_roundtrip (PBool b) = PBool b"
| "json_roundtrip (PNum x) = PNum x"
| "json_roundtrip (PStr s) = PStr s"
| "json_roundtrip (PList xs) = PList (map json_roundtrip xs)"
| "json_roundtrip (PDict kvs) = PDict (json_object (map (map_prod id json_roundtrip) kvs))"

text \<open>The button table shared by the three built-in profiles of
  \<open>_create_default_profiles\<close>.\<close>

definition builtin_buttons :: pyval where
  "builtin_buttons = PDict
     [(KStr ''0'', PStr ''select''), (KStr ''1'', PStr ''back''),
      (KStr ''2'', PStr ''refresh''), (KStr ''3'', PStr ''context''),
      (KStr ''4'', PStr ''prev_tab''), (KStr ''5'', PStr ''next_tab''),
      (KStr ''6'', PStr ''modifier''), (KStr ''7'', PStr ''none''),
      (KStr ''8'', PStr ''reset''), (KStr ''9'', PStr ''save''),
      (KStr ''12'', PStr ''nav_up''), (KStr ''13'', PStr ''nav_down''),
      (KStr ''14'', PStr ''nav_left''), (KStr ''15'', PStr ''nav_right'')]"

definition builtin_profile :: "string \<Rightarrow> real \<Rightarrow> pyval" where
  "builtin_profile title dz = PDict
     [(KStr ''name'', PStr title),
      (KStr ''buttons'', builtin_buttons),
      (KStr ''analog'', PDict
         [(KStr ''deadzone'', PNum dz), (KStr ''sensitivity'', PNum 1),
          (KStr ''invert_y'', PBool False)])]"

definition defaults :: "(string \<times> pyval) list" where
  "defaults =
     [(''default'', builtin_profile ''Default (Steam Deck)'' (2 / 10)),
      (''xbox'', builtin_profile ''Xbox Controller'' (15 / 100)),
      (''playstation'', builtin_profile ''PlayStation Controller'' (2 / 10))]"

definition profile_path :: "string \<Rightarrow> string" where
  "profile_path name = name @ ''.json''"

definition exists :: "config_manager \<Rightarrow> string \<Rightarrow> bool" where
  "exists c path = (map_of (profiles_dir c) path \<noteq> None)"

definition save_gamepad_profile :: "config_manager \<Rightarrow> string \<Rightarrow> pyval \<Rightarrow> config_manager" where
  "save_gamepad_profile c name profile =
     c\<lparr>profiles_dir :=
         AList.update (profile_path name) (Json (json_roundtrip profile)) (profiles_dir c)\<rparr>"

fun create_profiles :: "config_manager \<Rightarrow> (string \<times> pyval) list \<Rightarrow> config_manager" where
  "create_profiles c [] = c"
| "create_profiles c ((name, profile) # rest) =
     create_profiles
       (if \<not> exists c (profile_path name) then save_gamepad_profile c name profile else c) rest"

definition create_default_profiles :: "config_manager \<Rightarrow> config_manager" where
  "create_default_profiles c = create_profiles c defaults"

definition endswith :: "string \<Rightarrow> string \<Rightarrow> bool" where
  "endswith s suf = (length suf \<le> length s \<and> drop (length s - length suf) s = suf)"

definition get_profile_list :: "config_manager \<Rightarrow> string list" where
  "get_profile_list c =
     sort (map (\<lambda>filename. take (length filename - 5) filename)
            (filter (\<lambda>filename. endswith filename ''.json'') (map fst (profiles_dir c))))"

text \<open>\<open>get_gamepad_profile\<close>: Python's None is the value \<open>PNone\<close>. The only exception
  that escapes is the one the \<open>except\<close> clause does not name.\<close>

definition get_gamepad_profile :: "config_manager \<Rightarrow> string option \<Rightarrow> error + pyval" where
  "get_gamepad_profile c name =
     (let name' = (case name of
                     None \<Rightarrow> (case active_profile c of None \<Rightarrow> ''default'' | Some a \<Rightarrow> a)
                   | Some n \<Rightarrow> n)
      in case map_of (profiles_dir c) (profile_path name') of
           None \<Rightarrow> Inr PNone
         | Some Undecodable \<Rightarrow> Inl UnicodeDecodeError
         | Some NotJson \<Rightarrow> Inr PNone
         | Some (Json v) \<Rightarrow> Inr v)"

definition delete_gamepad_profile :: "config_manager \<Rightarrow> string \<Rightarrow> config_manager \<times> bool" where
  "delete_gamepad_profile c name =
     (if name \<in> set [''default'', ''xbox'', ''playstation''] then (c, False)
      else if exists c (profile_path name)
        then (c\<lparr>profiles_dir := AList.delete (profile_path name) (profiles_dir c)\<rparr>, True)
      else (c, False))"

text \<open>
  \<open>import_profile\<close>. The file at \<open>import_path\<close> is given by what opening and loading it
  does: \<open>None\<close> when \<open>open\<close> raises IOError. The result is the store afterwards and
  either the exception that reaches the caller or the returned bool.
\<close>

definition import_profile ::
  "config_manager \<Rightarrow> contents option \<Rightarrow> string \<Rightarrow> config_manager \<times> (error + bool)" where
  "import_profile c import_file name =
     (case import_file of
        None \<Rightarrow> (c, Inr False)
      | Some Undecodable \<Rightarrow> (c, Inl UnicodeDecodeError)
      | Some NotJson \<Rightarrow> (c, Inr False)
      | Some (Json profile) \<Rightarrow>
          (case setitem profile (KStr ''name'') (PStr name) of
             Inl e \<Rightarrow> (c, Inl e)
           | Inr profile' \<Rightarrow> (save_gamepad_profile c name profile', Inr True)))"

section \<open>The action mapper (core/gamepad\_manager.py, class GamepadManager)\<close>

text \<open>
  The signals of \<open>GamepadManager\<close>: \<open>button_pressed(index, action)\<close>, which the
  specification calls ActionTriggered, \<open>axis_moved(name, value)\<close>,
  \<open>gamepad_connected(name)\<close> and \<open>gamepad_disconnected()\<close>.
\<close>

datatype signal =
    ActionTriggered int pyval
  | NamedAxis string real
  | GamepadConnected string
  | GamepadDisconnected

record manager =
  mappings :: pyval
  analog_settings :: pyval
  worker :: "worker option"
  connected :: bool
  gamepad_name :: "string option"

definition DEFAULT_MAPPINGS :: pyval where
  "DEFAULT_MAPPINGS = PDict
     [(KInt 0, PStr ''select''), (KInt 1, PStr ''back''), (KInt 2, PStr ''refresh''),
      (KInt 3, PStr ''context''), (KInt 4, PStr ''prev_tab''), (KInt 5, PStr ''next_tab''),
      (KInt 6, PStr ''modifier''), (KInt 7, PStr ''none''), (KInt 8, PStr ''reset''),
      (KInt 9, PStr ''save''), (KInt 10, PStr ''none''), (KInt 11, PStr ''none''),
      (KInt 12, PStr ''nav_up''), (KInt 13, PStr ''nav_down''),
      (KInt 14, PStr ''nav_left''), (KInt 15, PStr ''nav_right'')]"

definition default_analog_settings :: pyval where
  "default_analog_settings = PDict
     [(KStr ''deadzone'', PNum (2 / 10)), (KStr ''sensitivity'', PNum 1),
      (KStr ''invert_y'', PBool False)]"

definition on_button_pressed :: "manager \<Rightarrow> int \<Rightarrow> error + signal list" where
  "on_button_pressed m button_index =
     (case dict_get (mappings m) (KInt button_index) (PStr ''none'') of
        Inl e \<Rightarrow> Inl e
      | Inr action \<Rightarrow>
          Inr (if action \<noteq> PStr ''none'' then [ActionTriggered button_index action] else []))"

definition on_button_released :: "manager \<Rightarrow> int \<Rightarrow> error + signal list" where
  "on_button_released m button_index = Inr []"

definition axis_name :: "int \<Rightarrow> string" where
  "axis_name axis_index =
     (case map_of [(0, ''left_x''), (1, ''left_y''), (2, ''right_x''), (3, ''right_y'')]
             axis_index of
        Some n \<Rightarrow> n
      | None \<Rightarrow> ''axis_'' @ str_int axis_index)"

definition on_axis_moved :: "manager \<Rightarrow> int \<Rightarrow> real \<Rightarrow> error + signal list" where
  "on_axis_moved m axis_index v =
     (case getitem (analog_settings m) ''sensitivity'' of
        Inl e \<Rightarrow> Inl e
      | Inr s \<Rightarrow>
          (case float_mul v s of
             Inl e \<Rightarrow> Inl e
           | Inr v1 \<Rightarrow>
               (case getitem (analog_settings m) ''invert_y'' of
                  Inl e \<Rightarrow> Inl e
                | Inr invert \<Rightarrow>
                    Inr [NamedAxis (axis_name axis_index)
                           (if truthy invert \<and> axis_index \<in> set [1, 3] then - v1 else v1)])))"

definition on_connected :: "manager \<Rightarrow> string \<Rightarrow> manager \<times> signal list" where
  "on_connected m name =
     (m\<lparr>connected := True, gamepad_name := Some name\<rparr>, [GamepadConnected name])"

definition on_disconnected :: "manager \<Rightarrow> manager \<times> signal list" where
  "on_disconnected m =
     (m\<lparr>connected := False, gamepad_name := None\<rparr>, [GamepadDisconnected])"

text \<open>The connections made in \<open>start\<close>: each worker signal runs its slot.\<close>

fun deliver :: "manager \<Rightarrow> event \<Rightarrow> error + manager \<times> signal list" where
  "deliver m (ButtonPressed i) =
     (case on_button_pressed m i of Inl e \<Rightarrow> Inl e | Inr out \<Rightarrow> Inr (m, out))"
| "deliver m (ButtonReleased i) =
     (case on_button_released m i of Inl e \<Rightarrow> Inl e | Inr out \<Rightarrow> Inr (m, out))"
| "deliver m (AxisMoved i v) =
     (case on_axis_moved m i v of Inl e \<Rightarrow> Inl e | Inr out \<Rightarrow> Inr (m, out))"
| "deliver m (Connected name) = Inr (on_connected m name)"
| "deliver m Disconnected = Inr (on_disconnected m)"

text \<open>\<open>start\<close>, when pygame is available, and \<open>stop\<close>.\<close>

definition start :: "manager \<Rightarrow> manager" where
  "start m = m\<lparr>worker := Some init_worker\<rparr>"

definition stop :: "manager \<Rightarrow> manager" where
  "stop m = m\<lparr>worker := None\<rparr>"

definition set_mapping :: "manager \<Rightarrow> int \<Rightarrow> pyval \<Rightarrow> error + manager" where
  "set_mapping m button_index action =
     (case setitem (mappings m) (KInt button_index) action of
        Inl e \<Rightarrow> Inl e
      | Inr d \<Rightarrow> Inr (m\<lparr>mappings := d\<rparr>))"

definition get_mapping :: "manager \<Rightarrow> int \<Rightarrow> error + pyval" where
  "get_mapping m button_index = dict_get (mappings m) (KInt button_index) (PStr ''none'')"

text \<open>
  \<open>set_deadzone\<close>: the clamped value is stored in the settings and, when a worker
  exists, read back from there into the worker's \<open>deadzone\<close>.
\<close>

definition set_deadzone :: "manager \<Rightarrow> real \<Rightarrow> error + manager" where
  "set_deadzone m v =
     (let d = max 0 (min (5 / 10) v)
      in case setitem (analog_settings m) (KStr ''deadzone'') (PNum d) of
           Inl e \<Rightarrow> Inl e
         | Inr a \<Rightarrow>
             Inr (m\<lparr>analog_settings := a,
                    worker := (case worker m of
                                 None \<Rightarrow> None
                               | Some w \<Rightarrow> Some (w\<lparr>deadzone := d\<rparr>))\<rparr>))"

definition set_sensitivity :: "manager \<Rightarrow> real \<Rightarrow> error + manager" where
  "set_sensitivity m v =
     (case setitem (analog_settings m) (KStr ''sensitivity'') (PNum (max (5 / 10) (min 2 v))) of
        Inl e \<Rightarrow> Inl e
      | Inr a \<Rightarrow> Inr (m\<lparr>analog_settings := a\<rparr>))"

definition set_invert_y :: "manager \<Rightarrow> bool \<Rightarrow> error + manager" where
  "set_invert_y m invert =
     (case setitem (analog_settings m) (KStr ''invert_y'') (PBool invert) of
        Inl e \<Rightarrow> Inl e
      | Inr a \<Rightarrow> Inr (m\<lparr>analog_settings := a\<rparr>))"

definition reset_to_defaults :: "manager \<Rightarrow> manager" where
  "reset_to_defaults m =
     m\<lparr>mappings := DEFAULT_MAPPINGS, analog_settings := default_analog_settings\<rparr>"

text \<open>
  \<open>load_profile\<close>, with the manager's \<open>self.config\<close> passed as \<open>config\<close> (None when the
  manager was built without a config manager).
\<close>

definition load_profile ::
  "config_manager option \<Rightarrow> manager \<Rightarrow> string option \<Rightarrow> error + manager" where
  "load_profile config m name =
     (case config of
        None \<Rightarrow> Inr m
      | Some c \<Rightarrow>
          (case get_gamepad_profile c name of
             Inl e \<Rightarrow> Inl e
           | Inr profile \<Rightarrow>
               if truthy profile then
                 (case dict_get profile (KStr ''buttons'') DEFAULT_MAPPINGS of
                    Inl e \<Rightarrow> Inl e
                  | Inr b \<Rightarrow>
                      (case dict_get profile (KStr ''analog'') (analog_settings m) of
                         Inl e \<Rightarrow> Inl e
                       | Inr a \<Rightarrow> Inr (m\<lparr>mappings := b, analog_settings := a\<rparr>)))
               else Inr m))"

text \<open>The constructor: the defaults, then \<open>self.load_profile()\<close>.\<close>

definition new_manager :: manager where
  "new_manager =
     \<lparr>mappings = DEFAULT_MAPPINGS, analog_settings = default_analog_settings,
      worker = None, connected = False, gamepad_name = None\<rparr>"

definition init_manager :: "config_manager option \<Rightarrow> error + manager" where
  "init_manager config = load_profile config new_manager None"

definition save_profile :: "config_manager option \<Rightarrow> manager \<Rightarrow> string \<Rightarrow> config_manager option" where
  "save_profile config m name =
     (case config of
        None \<Rightarrow> None
      | Some c \<Rightarrow>
          Some (save_gamepad_profile c name
                  (PDict [(KStr ''name'', PStr name), (KStr ''buttons'', mappings m),
                          (KStr ''analog'', analog_settings m)])))"

section \<open>Tabs and focus navigation (ui/main\_window.py, class MainWindow)\<close>

text \<open>The tab widget: \<open>currentIndex()\<close> and \<open>count()\<close>.\<close>

record tabs =
  currentIndex :: int
  count :: nat

text \<open>Qt's \<open>setCurrentIndex\<close> ignores an index that is out of range.\<close>

definition setCurrentIndex :: "tabs \<Rightarrow> int \<Rightarrow> tabs" where
  "setCurrentIndex t i = (if 0 \<le> i \<and> i < int (count t) then t\<lparr>currentIndex := i\<rparr> else t)"

definition prev_tab :: "tabs \<Rightarrow> error + tabs" where
  "prev_tab t =
     (if count t = 0 then Inl ZeroDivisionError
      else Inr (setCurrentIndex t ((currentIndex t - 1) mod int (count t))))"

definition next_tab :: "tabs \<Rightarrow> error + tabs" where
  "next_tab t =
     (if count t = 0 then Inl ZeroDivisionError
      else Inr (setCurrentIndex t ((currentIndex t + 1) mod int (count t))))"

text \<open>
  A widget as \<open>_navigate_focus\<close> sees it: its identity, the global position of the centre
  of its rectangle, and the three tests of the candidate filter (\<open>focusable\<close> is
  \<open>focusPolicy() != Qt.NoFocus\<close>).
\<close>

record widget =
  wid :: nat
  center :: "int \<times> int"
  visible :: bool
  enabled :: bool
  focusable :: bool

datatype focus_action = FocusNextChild | NoChange | SetFocus widget

text \<open>
  The \<open>if\<close>/\<open>elif\<close> chain of the loop body: \<open>None\<close> when \<open>in_direction\<close> stays False,
  the score otherwise.
\<close>

definition direction_score :: "string \<Rightarrow> int \<Rightarrow> int \<Rightarrow> int option" where
  "direction_score direction dx dy =
     (if direction = ''down'' \<and> dy > 20 then Some (dy + \<bar>dx\<bar> * 2)
      else if direction = ''up'' \<and> dy < - 20 then Some (- dy + \<bar>dx\<bar> * 2)
      else if direction = ''right'' \<and> dx > 20 then Some (dx + \<bar>dy\<bar> * 2)
      else if direction = ''left'' \<and> dx < - 20 then Some (- dx + \<bar>dy\<bar> * 2)
      else None)"

text \<open>
  The search loop over \<open>focusable\<close>, on the pair \<open>(best, best_score)\<close>; \<open>best_score\<close> is
  \<open>None\<close> while it is \<open>float('inf')\<close>.
\<close>

fun find_best ::
  "string \<Rightarrow> int \<times> int \<Rightarrow> widget list \<Rightarrow> widget option \<times> int option \<Rightarrow>
   widget option \<times> int option" where
  "find_best direction current_pos [] acc = acc"
| "find_best direction current_pos (w # rest) (best, best_score) =
     (let dx = fst (center w) - fst current_pos;
          dy = snd (center w) - snd current_pos
      in case direction_score direction dx dy of
           Some score \<Rightarrow>
             if (case best_score of None \<Rightarrow> True | Some b \<Rightarrow> score < b)
             then find_best direction current_pos rest (Some w, Some score)
             else find_best direction current_pos rest (best, best_score)
         | None \<Rightarrow> find_best direction current_pos rest (best, best_score))"

definition navigate_focus :: "string \<Rightarrow> widget option \<Rightarrow> widget list \<Rightarrow> focus_action" where
  "navigate_focus direction current children =
     (case current of
        None \<Rightarrow> FocusNextChild
      | Some cur \<Rightarrow>
          (let focusable_ws =
                 filter (\<lambda>w. visible w \<and> enabled w \<and> focusable w \<and> wid w \<noteq> wid cur) children
           in if focusable_ws = [] then NoChange
              else case fst (find_best direction (center cur) focusable_ws (None, None)) of
                     None \<Rightarrow> NoChange
                   | Some best \<Rightarrow> SetFocus best))"

text \<open>A store for examples: the built-in profile \<open>default\<close>, a user profile \<open>racing\<close>
  whose deadzone is out of range, a file that is not JSON, a file that holds a JSON
  array, a file whose bytes are not text, and a profile whose \<open>analog\<close> entry is
  \<open>null\<close>.\<close>

definition example_store :: config_manager where
  "example_store =
     \<lparr>active_profile = Some ''default'',
      profiles_dir =
        [(''default.json'', Json (builtin_profile ''Default (Steam Deck)'' (2 / 10))),
         (''racing.json'', Json (PDict
            [(KStr ''name'', PStr ''racing''),
             (KStr ''analog'', PDict
                [(KStr ''deadzone'', PNum (9 / 10)), (KStr ''sensitivity'', PNum 3),
                 (KStr ''invert_y'', PBool True)])])),
         (''broken.json'', NotJson),
         (''array.json'', Json (PList [PNum 1, PNum 2])),
         (''binary.json'', Undecodable),
         (''bare.json'', Json (PDict
            [(KStr ''name'', PStr ''bare''), (KStr ''analog'', PNone)]))]\<rparr>"

text \<open>
  The vocabulary of the navigation claim: the score of a widget seen from the current
  one (\<open>None\<close> when it does not lie in the direction), and the candidates, which are the
  eligible widgets that lie in the direction, in traversal order.
\<close>

definition widget_score :: "string \<Rightarrow> widget \<Rightarrow> widget \<Rightarrow> int option" where
  "widget_score direction cur w =
     direction_score direction
       (fst (center w) - fst (center cur)) (snd (center w) - snd (center cur))"

definition candidates :: "string \<Rightarrow> widget \<Rightarrow> widget list \<Rightarrow> widget list" where
  "candidates direction cur children =
     filter (\<lambda>w. visible w \<and> enabled w \<and> focusable w \<and> wid w \<noteq> wid cur \<and>
                 widget_score direction cur w \<noteq> None) children"

text \<open>The widgets of the navigation example: the current one at (100,100) and three
  others at (100,200), (300,100) and (50,50).\<close>

definition widget_at :: "nat \<Rightarrow> int \<times> int \<Rightarrow> widget" where
  "widget_at i pos = \<lparr>wid = i, center = pos, visible = True, enabled = True, focusable = True\<rparr>"

text \<open>The range invariant of the analog settings, as the specification states it: the
  stored deadzone is a number in [0, 0.5] and the stored sensitivity a number in
  [0.5, 2.0].\<close>

definition analog_in_range :: "manager \<Rightarrow> bool" where
  "analog_in_range m =
     (case getitem (analog_settings m) ''deadzone'' of
        Inr (PNum d) \<Rightarrow>
          (case getitem (analog_settings m) ''sensitivity'' of
             Inr (PNum s) \<Rightarrow> 0 \<le> d \<and> d \<le> 5 / 10 \<and> 5 / 10 \<le> s \<and> s \<le> 2
           | _ \<Rightarrow> False)
      | _ \<Rightarrow> False)"

text \<open>Examples for the profile claims: an empty store with active profile \<open>default\<close>,
  and the manager after \<open>set_mapping(0, 'back')\<close> on a new manager.\<close>

definition empty_store :: config_manager where
  "empty_store = \<lparr>active_profile = Some ''default'', profiles_dir = []\<rparr>"

definition remapped_manager :: manager where
  "remapped_manager = new_manager\<lparr>mappings := PDict
     [(KInt 0, PStr ''back''), (KInt 1, PStr ''back''), (KInt 2, PStr ''refresh''),
      (KInt 3, PStr ''context''), (KInt 4, PStr ''prev_tab''), (KInt 5, PStr ''next_tab''),
      (KInt 6, PStr ''modifier''), (KInt 7, PStr ''none''), (KInt 8, PStr ''reset''),
      (KInt 9, PStr ''save''), (KInt 10, PStr ''none''), (KInt 11, PStr ''none''),
      (KInt 12, PStr ''nav_up''), (KInt 13, PStr ''nav_down''),
      (KInt 14, PStr ''nav_left''), (KInt 15, PStr ''nav_right'')]\<rparr>"
section \<open>Hat transitions\<close>

lemma held_append: "held S (xs @ ys) = held (held S xs) ys"
  by (simp add: held_def)

lemma poll_hat_snd: "snd (poll_hat prev hat) = hat"
  by (simp add: poll_hat_def)

lemma held_poll_hat: "held (hat_held prev) (fst (poll_hat prev hat)) = hat_held hat"
  by (auto simp: poll_hat_def held_def hat_held_def split: option.splits)

lemma card_hat_held: "card (hat_held h) \<le> 1"
  by (simp add: hat_held_def split: option.splits)

lemma held_poll_hat_prefix:
  "card (held (hat_held prev) (take n (fst (poll_hat prev hat)))) \<le> 1"
proof (cases "hat = prev")
  case True
  then show ?thesis using card_hat_held [of prev] by (simp add: poll_hat_def held_def)
next
  case False
  have n: "n = 0 \<or> n = 1 \<or> 2 \<le> n" by arith
  from False n show ?thesis
    by (auto simp: poll_hat_def held_def hat_held_def split: option.splits)
qed

lemma held_poll_hats_prefix:
  "card (held (hat_held prev) (take n (fst (poll_hats prev hs)))) \<le> 1"
proof (induction hs arbitrary: prev n)
  case Nil
  then show ?case using card_hat_held [of prev] by (simp add: held_def)
next
  case (Cons h hs)
  obtain evs l' where ph: "poll_hat prev h = (evs, l')" by (cases "poll_hat prev h")
  obtain evs' l'' where phs: "poll_hats l' hs = (evs', l'')" by (cases "poll_hats l' hs")
  have l': "l' = h" using poll_hat_snd [of prev h] ph by simp
  have full: "held (hat_held prev) evs = hat_held h"
    using held_poll_hat [of prev h] ph by simp
  show ?case
  proof (cases "n \<le> length evs")
    case True
    then show ?thesis
      using held_poll_hat_prefix [of prev n h] ph phs by simp
  next
    case False
    then have "take n (evs @ evs') = evs @ take (n - length evs) evs'" by simp
    then have "held (hat_held prev) (take n (evs @ evs')) =
        held (hat_held h) (take (n - length evs) evs')"
      by (simp add: held_append full)
    then show ?thesis
      using Cons.IH [of h "n - length evs"] ph phs l' by simp
  qed
qed


lemma run_hat_sequence:
  "fst (run init_worker
     [Some (hat_only (0, 0)), Some (hat_only (0, 1)), Some (hat_only (- 1, 0)),
      Some (hat_only (0, 0)), Some (hat_only (0, 0))]) =
   [Connected ''pad'', ButtonPressed 12, ButtonReleased 12, ButtonPressed 14,
    ButtonReleased 14]"
  by (simp add: poll_def init_worker_def hat_only_def poll_hat_def hat_buttons_def)

text \<open>
  C1 (as amended). The poller compares the raw hat tuples, not the virtual buttons they
  collapse to. When the previous and the new tuple are mapped to the same virtual button
  \<open>b\<close>, no event is emitted only if the tuple itself is unchanged; a change of tuple
  emits the release of \<open>b\<close> followed by the press of \<open>b\<close>.
\<close>

theorem hat_same_button_transition:
  "hat_buttons prev = Some b \<Longrightarrow> hat_buttons hat = Some b \<Longrightarrow>
   fst (poll_hat prev hat) = (if hat = prev then [] else [ButtonReleased b, ButtonPressed b])"
  by (simp add: poll_hat_def)

theorem hat_same_button_transition_witness:
  "hat_buttons (0, 1) = Some 12 \<and> hat_buttons (- 1, 1) = Some 12 \<and>
   fst (poll_hat (0, 1) (- 1, 1)) = [ButtonReleased 12, ButtonPressed 12]"
proof -
  have a: "hat_buttons (0, 1) = Some 12" by (simp add: hat_buttons_def)
  have b: "hat_buttons (- 1, 1) = Some 12" by (simp add: hat_buttons_def)
  show ?thesis using a b hat_same_button_transition [OF a b] by simp
qed

text \<open>
  C1 as stated fails: the hat moving from up \<open>(0,1)\<close> to up-right \<open>(1,1)\<close>, both of which
  collapse to virtual button 12, emits a release and a press of button 12. The same
  happens inside the polling loop for the sequence \<open>(0,0), (0,1), (1,1), (0,0)\<close>.
\<close>

theorem hat_same_button_counterexample:
  "hat_buttons (0, 1) = Some 12 \<and> hat_buttons (1, 1) = Some 12 \<and>
   fst (poll_hat (0, 1) (1, 1)) = [ButtonReleased 12, ButtonPressed 12] \<and>
   fst (poll_hat (0, 1) (1, 1)) \<noteq> [] \<and>
   fst (run init_worker
     [Some (hat_only (0, 0)), Some (hat_only (0, 1)), Some (hat_only (1, 1)),
      Some (hat_only (0, 0))]) =
   [Connected ''pad'', ButtonPressed 12, ButtonReleased 12, ButtonPressed 12,
    ButtonReleased 12]"
  by (simp add: poll_def init_worker_def hat_only_def poll_hat_def hat_buttons_def)

text \<open>
  The marked loop emits the events of the loop, and its hat-loop events are those of the
  hat loop run over all hat readings in order.
\<close>

lemma poll_untag:
  "map snd (fst (poll_tagged w sample)) = fst (poll w sample) \<and>
   snd (poll_tagged w sample) = snd (poll w sample)"
proof (cases sample)
  case None
  then show ?thesis by (simp add: poll_tagged_def poll_def comp_def)
next
  case (Some d)
  obtain bevs prev' where b: "poll_buttons (last_button_states w) 0 (dev_buttons d) = (bevs, prev')"
    by (cases "poll_buttons (last_button_states w) 0 (dev_buttons d)")
  obtain hevs hat' where h: "poll_hats (last_hat_state w) (dev_hats d) = (hevs, hat')"
    by (cases "poll_hats (last_hat_state w) (dev_hats d)")
  show ?thesis using Some b h
    by (cases "joystick w") (simp_all add: poll_tagged_def poll_def comp_def)
qed

lemma run_untag:
  "map snd (fst (run_tagged w samples)) = fst (run w samples) \<and>
   snd (run_tagged w samples) = snd (run w samples)"
proof (induction samples arbitrary: w)
  case Nil
  then show ?case by simp
next
  case (Cons s samples)
  obtain tevs w' where p: "poll_tagged w s = (tevs, w')" by (cases "poll_tagged w s")
  obtain tevs' w'' where r: "run_tagged w' samples = (tevs', w'')" by (cases "run_tagged w' samples")
  obtain evs' v'' where r': "run w' samples = (evs', v'')" by (cases "run w' samples")
  have p': "poll w s = (map snd tevs, w')" using poll_untag [of w s] p by (cases "poll w s") simp
  have "map snd tevs' = evs' \<and> w'' = v''" using Cons.IH [of w'] r r' by simp
  then show ?case using p r p' r' by simp
qed

lemma hat_part_poll:
  "hat_part (fst (poll_tagged w sample)) =
     (case sample of Some d \<Rightarrow> fst (poll_hats (last_hat_state w) (dev_hats d)) | None \<Rightarrow> []) \<and>
   last_hat_state (snd (poll_tagged w sample)) =
     (case sample of Some d \<Rightarrow> snd (poll_hats (last_hat_state w) (dev_hats d))
      | None \<Rightarrow> last_hat_state w)"
proof (cases sample)
  case None
  then show ?thesis by (simp add: poll_tagged_def hat_part_def)
next
  case (Some d)
  obtain bevs prev' where b: "poll_buttons (last_button_states w) 0 (dev_buttons d) = (bevs, prev')"
    by (cases "poll_buttons (last_button_states w) 0 (dev_buttons d)")
  obtain hevs hat' where h: "poll_hats (last_hat_state w) (dev_hats d) = (hevs, hat')"
    by (cases "poll_hats (last_hat_state w) (dev_hats d)")
  show ?thesis using Some b h
    by (cases "joystick w") (simp_all add: poll_tagged_def hat_part_def comp_def)
qed

lemma poll_hats_append:
  "poll_hats p (xs @ ys) =
     (fst (poll_hats p xs) @ fst (poll_hats (snd (poll_hats p xs)) ys),
      snd (poll_hats (snd (poll_hats p xs)) ys))"
proof (induction xs arbitrary: p)
  case Nil
  then show ?case by simp
next
  case (Cons x xs)
  obtain e1 p1 where a: "poll_hat p x = (e1, p1)" by (cases "poll_hat p x")
  obtain e2 p2 where b: "poll_hats p1 xs = (e2, p2)" by (cases "poll_hats p1 xs")
  obtain e3 p3 where c: "poll_hats p2 ys = (e3, p3)" by (cases "poll_hats p2 ys")
  have "poll_hats p1 (xs @ ys) = (e2 @ e3, p3)" using Cons.IH [of p1] b c by simp
  then show ?case using a b c by simp
qed

lemma hat_part_append: "hat_part (xs @ ys) = hat_part xs @ hat_part ys"
  by (simp add: hat_part_def)

lemma hat_part_run:
  "hat_part (fst (run_tagged w samples)) =
     fst (poll_hats (last_hat_state w) (hat_readings samples)) \<and>
   last_hat_state (snd (run_tagged w samples)) =
     snd (poll_hats (last_hat_state w) (hat_readings samples))"
proof (induction samples arbitrary: w)
  case Nil
  then show ?case by (simp add: hat_part_def hat_readings_def)
next
  case (Cons s samples)
  obtain tevs w' where p: "poll_tagged w s = (tevs, w')" by (cases "poll_tagged w s")
  obtain tevs' w'' where r: "run_tagged w' samples = (tevs', w'')" by (cases "run_tagged w' samples")
  let ?hs = "case s of Some d \<Rightarrow> dev_hats d | None \<Rightarrow> []"
  have hp: "hat_part tevs = fst (poll_hats (last_hat_state w) ?hs) \<and>
      last_hat_state w' = snd (poll_hats (last_hat_state w) ?hs)"
    using hat_part_poll [of w s] p by (cases s) simp_all
  have ih: "hat_part tevs' = fst (poll_hats (last_hat_state w') (hat_readings samples)) \<and>
      last_hat_state w'' = snd (poll_hats (last_hat_state w') (hat_readings samples))"
    using Cons.IH [of w'] r by simp
  have hr: "hat_readings (s # samples) = ?hs @ hat_readings samples"
    by (simp add: hat_readings_def)
  show ?case
    unfolding hr poll_hats_append using p r hp ih by (simp add: hat_part_append)
qed

lemma filter_take: "\<exists>m. filter P (take n xs) = take m (filter P xs)"
proof (induction xs arbitrary: n)
  case Nil
  then show ?case by simp
next
  case (Cons x xs)
  show ?case
  proof (cases n)
    case 0
    then show ?thesis by (intro exI [of _ 0]) simp
  next
    case (Suc k)
    from Cons.IH [of k] obtain m where m: "filter P (take k xs) = take m (filter P xs)" ..
    show ?thesis
    proof (cases "P x")
      case True
      then show ?thesis using Suc m by (intro exI [of _ "Suc m"]) simp
    next
      case False
      then show ?thesis using Suc m by (intro exI [of _ m]) simp
    qed
  qed
qed

lemma hat_part_take: "\<exists>m. hat_part (take n tevs) = take m (hat_part tevs)"
proof -
  obtain m where "filter (\<lambda>te. fst te = HatLoop) (take n tevs) =
      take m (filter (\<lambda>te. fst te = HatLoop) tevs)"
    using filter_take by blast
  then have "hat_part (take n tevs) = take m (hat_part tevs)"
    by (simp add: hat_part_def take_map)
  then show ?thesis ..
qed

lemma held_poll_hats: "held (hat_held p) (fst (poll_hats p hs)) = hat_held (snd (poll_hats p hs))"
proof (induction hs arbitrary: p)
  case Nil
  then show ?case by (simp add: held_def)
next
  case (Cons h hs)
  obtain e1 p1 where a: "poll_hat p h = (e1, p1)" by (cases "poll_hat p h")
  obtain e2 p2 where b: "poll_hats p1 hs = (e2, p2)" by (cases "poll_hats p1 hs")
  have p1: "p1 = h" using poll_hat_snd [of p h] a by simp
  have "held (hat_held p) e1 = hat_held p1" using held_poll_hat [of p h] a p1 by simp
  moreover have "held (hat_held p1) e2 = hat_held p2" using Cons.IH [of p1] b by simp
  ultimately show ?case using a b by (simp add: held_append)
qed

lemma init_hat_held: "hat_held (last_hat_state init_worker) = {}"
  by (simp add: init_worker_def hat_held_def hat_buttons_def)

lemma run_hat_prefix:
  "card (held {} (hat_part (take n (fst (run_tagged init_worker samples))))) \<le> 1"
proof -
  obtain m where m: "hat_part (take n (fst (run_tagged init_worker samples))) =
      take m (hat_part (fst (run_tagged init_worker samples)))"
    using hat_part_take by blast
  have "hat_part (fst (run_tagged init_worker samples)) =
      fst (poll_hats (last_hat_state init_worker) (hat_readings samples))"
    using hat_part_run [of init_worker samples] by simp
  then show ?thesis
    using held_poll_hats_prefix [of "last_hat_state init_worker" m "hat_readings samples"]
    by (simp add: m init_hat_held)
qed

lemma run_hat_state:
  "held {} (hat_part (fst (run_tagged init_worker samples))) =
     hat_held (last_hat_state (snd (run init_worker samples)))"
proof -
  have "held (hat_held (last_hat_state init_worker))
          (fst (poll_hats (last_hat_state init_worker) (hat_readings samples))) =
        hat_held (snd (poll_hats (last_hat_state init_worker) (hat_readings samples)))"
    by (rule held_poll_hats)
  then show ?thesis
    using hat_part_run [of init_worker samples] run_untag [of init_worker samples]
    by (simp add: init_hat_held)
qed

lemma poll_buttons_range:
  "e \<in> set (fst (poll_buttons prev i bs)) \<Longrightarrow>
   \<exists>b. (e = ButtonPressed b \<or> e = ButtonReleased b) \<and> i \<le> b \<and> b < i + int (length bs)"
proof (induction bs arbitrary: prev i)
  case Nil
  then show ?case by simp
next
  case (Cons x bs)
  obtain evs' prev' where r: "poll_buttons (prev(i \<mapsto> x)) (i + 1) bs = (evs', prev')"
    by (cases "poll_buttons (prev(i \<mapsto> x)) (i + 1) bs")
  have here: "e = ButtonPressed i \<or> e = ButtonReleased i \<or> e \<in> set evs'"
    using Cons.prems r by (auto simp: Let_def split: if_splits)
  show ?case
  proof (cases "e \<in> set evs'")
    case True
    then have "e \<in> set (fst (poll_buttons (prev(i \<mapsto> x)) (i + 1) bs))" unfolding r by simp
    from Cons.IH [OF this] show ?thesis by auto
  next
    case False
    then show ?thesis using here by auto
  qed
qed

lemma hat_buttons_dpad: "hat_buttons h = Some b \<Longrightarrow> b \<in> dpad"
  by (auto simp: hat_buttons_def dpad_def split: if_splits)

lemma poll_hat_dpad: "e \<in> set (fst (poll_hat p h)) \<Longrightarrow> dpad_event e"
  by (auto simp: poll_hat_def hat_buttons_dpad split: if_splits option.splits)

lemma poll_hats_dpad: "e \<in> set (fst (poll_hats p hs)) \<Longrightarrow> dpad_event e"
proof (induction hs arbitrary: p)
  case Nil
  then show ?case by simp
next
  case (Cons h hs)
  obtain e1 p1 where a: "poll_hat p h = (e1, p1)" by (cases "poll_hat p h")
  obtain e2 p2 where b: "poll_hats p1 hs = (e2, p2)" by (cases "poll_hats p1 hs")
  have "e \<in> set e1 \<or> e \<in> set e2" using Cons.prems a b by simp
  then show ?case
  proof
    assume "e \<in> set e1"
    then show ?thesis using poll_hat_dpad [of e p h] a by simp
  next
    assume "e \<in> set e2"
    then show ?thesis using Cons.IH [of p1] b by simp
  qed
qed

lemma poll_axes_not_dpad: "e \<in> set (poll_axes dz i vs) \<Longrightarrow> \<not> dpad_event e"
  by (induction vs arbitrary: i) (auto split: if_splits)

lemma poll_buttons_not_dpad:
  assumes "e \<in> set (fst (poll_buttons prev 0 bs))" and "length bs \<le> 12"
  shows "\<not> dpad_event e"
proof -
  from poll_buttons_range [OF assms(1)] obtain b where
    b: "e = ButtonPressed b \<or> e = ButtonReleased b" "b < int (length bs)" by auto
  then have "b < 12" using assms(2) by simp
  then have "b \<notin> dpad" by (simp add: dpad_def)
  then show ?thesis using b(1) by auto
qed

lemma poll_tagged_marks:
  assumes "\<forall>d. sample = Some d \<longrightarrow> length (dev_buttons d) \<le> 12"
    and "te \<in> set (fst (poll_tagged w sample))"
  shows "fst te = HatLoop \<longleftrightarrow> dpad_event (snd te)"
proof (cases sample)
  case None
  then show ?thesis using assms(2) by (auto simp: poll_tagged_def split: if_splits)
next
  case (Some d)
  obtain bevs prev' where b: "poll_buttons (last_button_states w) 0 (dev_buttons d) = (bevs, prev')"
    by (cases "poll_buttons (last_button_states w) 0 (dev_buttons d)")
  obtain hevs hat' where h: "poll_hats (last_hat_state w) (dev_hats d) = (hevs, hat')"
    by (cases "poll_hats (last_hat_state w) (dev_hats d)")
  have len: "length (dev_buttons d) \<le> 12" using assms(1) Some by simp
  have nb: "\<And>e. e \<in> set bevs \<Longrightarrow> \<not> dpad_event e"
    using poll_buttons_not_dpad [of _ "last_button_states w" "dev_buttons d"] b len by simp
  have na: "\<And>e. e \<in> set (poll_axes (deadzone w) 0 (dev_axes d)) \<Longrightarrow> \<not> dpad_event e"
    by (rule poll_axes_not_dpad)
  have yh: "\<And>e. e \<in> set hevs \<Longrightarrow> dpad_event e"
    using poll_hats_dpad [of _ "last_hat_state w" "dev_hats d"] h by simp
  have "te \<in> Pair ConnectionCheck ` {Connected (dev_name d)} \<or> te \<in> Pair ButtonLoop ` set bevs \<or>
        te \<in> Pair AxisLoop ` set (poll_axes (deadzone w) 0 (dev_axes d)) \<or>
        te \<in> Pair HatLoop ` set hevs"
    using assms(2) Some b h by (cases "joystick w") (auto simp: poll_tagged_def)
  then show ?thesis using nb na yh by auto
qed

lemma run_tagged_marks:
  assumes "\<forall>d. Some d \<in> set samples \<longrightarrow> length (dev_buttons d) \<le> 12"
    and "te \<in> set (fst (run_tagged w samples))"
  shows "fst te = HatLoop \<longleftrightarrow> dpad_event (snd te)"
  using assms
proof (induction samples arbitrary: w)
  case Nil
  then show ?case by simp
next
  case (Cons s samples)
  obtain tevs w' where p: "poll_tagged w s = (tevs, w')" by (cases "poll_tagged w s")
  obtain tevs' w'' where r: "run_tagged w' samples = (tevs', w'')" by (cases "run_tagged w' samples")
  have "te \<in> set tevs \<or> te \<in> set tevs'" using Cons.prems(2) p r by simp
  then show ?case
  proof
    assume "te \<in> set tevs"
    then have "te \<in> set (fst (poll_tagged w s))" using p by simp
    moreover have "\<forall>d. s = Some d \<longrightarrow> length (dev_buttons d) \<le> 12" using Cons.prems(1) by simp
    ultimately show ?thesis using poll_tagged_marks by blast
  next
    assume "te \<in> set tevs'"
    then have "te \<in> set (fst (run_tagged w' samples))" using r by simp
    moreover have "\<forall>d. Some d \<in> set samples \<longrightarrow> length (dev_buttons d) \<le> 12"
      using Cons.prems(1) by simp
    ultimately show ?thesis using Cons.IH by blast
  qed
qed

lemma marked_filter:
  "\<forall>te\<in>set tevs. fst te = HatLoop \<longleftrightarrow> dpad_event (snd te) \<Longrightarrow>
   filter dpad_event (map snd tevs) = hat_part tevs"
  by (induction tevs) (auto simp: hat_part_def)

lemma held_dpad: "held S evs \<inter> dpad = held (S \<inter> dpad) (filter dpad_event evs)"
proof (induction evs arbitrary: S)
  case Nil
  then show ?case by (simp add: held_def)
next
  case (Cons e evs)
  have step: "held S (e # evs) = held (press_release S e) evs" by (simp add: held_def)
  show ?case
  proof (cases "dpad_event e")
    case True
    then have "press_release S e \<inter> dpad = press_release (S \<inter> dpad) e"
      by (cases e) auto
    then show ?thesis using True Cons.IH [of "press_release S e"] step by (simp add: held_def)
  next
    case False
    then have "press_release S e \<inter> dpad = S \<inter> dpad"
      by (cases e) auto
    then show ?thesis using False Cons.IH [of "press_release S e"] step by simp
  qed
qed

lemma run_dpad_prefix:
  assumes "\<forall>d. Some d \<in> set samples \<longrightarrow> length (dev_buttons d) \<le> 12"
  shows "card (held {} (take n (fst (run init_worker samples))) \<inter> dpad) \<le> 1"
proof -
  let ?tevs = "fst (run_tagged init_worker samples)"
  have "fst (run init_worker samples) = map snd ?tevs"
    using run_untag [of init_worker samples] by simp
  then have evs: "take n (fst (run init_worker samples)) = map snd (take n ?tevs)"
    by (simp only: take_map)
  have "\<forall>te\<in>set (take n ?tevs). fst te = HatLoop \<longleftrightarrow> dpad_event (snd te)"
    using run_tagged_marks [OF assms] by (meson in_set_takeD)
  then have "filter dpad_event (map snd (take n ?tevs)) = hat_part (take n ?tevs)"
    by (rule marked_filter)
  then have "held {} (take n (fst (run init_worker samples))) \<inter> dpad =
      held {} (hat_part (take n ?tevs))"
    using held_dpad [of "{}" "take n (fst (run init_worker samples))"] evs by simp
  then show ?thesis using run_hat_prefix [of n samples] by simp
qed

text \<open>
  Why the statement about the unmarked event stream asks for at most twelve buttons: on a
  pad with sixteen buttons, real button 13 held down and the hat pushed up give a press of
  13 from the button loop and a press of 12 from the hat loop, and the events do not say
  which loop they come from.
\<close>

lemma run_sixteen_buttons:
  "fst (run init_worker
     [Some \<lparr>dev_name = ''pad'',
            dev_buttons = [False, False, False, False, False, False, False, False,
                           False, False, False, False, False, True, False, False],
            dev_axes = [], dev_hats = [(0, 1)]\<rparr>]) =
   [Connected ''pad'', ButtonPressed 13, ButtonPressed 12]"
  by (simp add: poll_def init_worker_def poll_hat_def hat_buttons_def)

text \<open>
  C6. On every change of hat state the release of the previous direction's virtual button
  (when the previous tuple is mapped) is emitted before the press of the new direction's
  virtual button (when the new tuple is mapped). In the polling loop, started in the
  worker's initial state and run over any sequence of samples, the events of the hat loop
  are those of the hat transitions in order; after every prefix of the loop's events at
  most one virtual d-pad button is held by the hat-loop events, and at the end of every
  run the held virtual button is the one of the stored hat state. When no sampled device
  has more than twelve buttons, so that the indices 12 to 15 belong to the hat alone, the
  same bound holds for the buttons 12 to 15 held by the loop's events as they are
  emitted. Concretely, the loop run over the hat readings (0,0), (0,1), (-1,0), (0,0),
  (0,0) emits press 12; release 12, press 14; release 14; and nothing else.
\<close>

theorem hat_release_before_press:
  "(\<forall>prev hat. hat \<noteq> prev \<longrightarrow>
      fst (poll_hat prev hat) =
        (case hat_buttons prev of Some b \<Rightarrow> [ButtonReleased b] | None \<Rightarrow> []) @
        (case hat_buttons hat of Some b \<Rightarrow> [ButtonPressed b] | None \<Rightarrow> [])) \<and>
   (\<forall>w samples. map snd (fst (run_tagged w samples)) = fst (run w samples) \<and>
      snd (run_tagged w samples) = snd (run w samples)) \<and>
   (\<forall>samples. hat_part (fst (run_tagged init_worker samples)) =
      fst (poll_hats (0, 0) (hat_readings samples))) \<and>
   (\<forall>samples n.
      card (held {} (hat_part (take n (fst (run_tagged init_worker samples))))) \<le> 1) \<and>
   (\<forall>samples. held {} (hat_part (fst (run_tagged init_worker samples))) =
      hat_held (last_hat_state (snd (run init_worker samples)))) \<and>
   (\<forall>samples n. (\<forall>d. Some d \<in> set samples \<longrightarrow> length (dev_buttons d) \<le> 12) \<longrightarrow>
      card (held {} (take n (fst (run init_worker samples))) \<inter> dpad) \<le> 1) \<and>
   (\<forall>hs n. card (held {} (take n (fst (poll_hats (0, 0) hs)))) \<le> 1) \<and>
   poll_hat (0, 0) (0, 1) = ([ButtonPressed 12], (0, 1)) \<and>
   poll_hat (0, 1) (- 1, 0) = ([ButtonReleased 12, ButtonPressed 14], (- 1, 0)) \<and>
   poll_hat (- 1, 0) (0, 0) = ([ButtonReleased 14], (0, 0)) \<and>
   poll_hat (0, 0) (0, 0) = ([], (0, 0)) \<and>
   fst (poll_hats (0, 0) [(0, 1), (- 1, 0), (0, 0), (0, 0)]) =
     [ButtonPressed 12, ButtonReleased 12, ButtonPressed 14, ButtonReleased 14] \<and>
   fst (run init_worker
     [Some (hat_only (0, 0)), Some (hat_only (0, 1)), Some (hat_only (- 1, 0)),
      Some (hat_only (0, 0)), Some (hat_only (0, 0))]) =
     [Connected ''pad'', ButtonPressed 12, ButtonReleased 12, ButtonPressed 14,
      ButtonReleased 14]"
proof -
  have step: "\<forall>prev hat. hat \<noteq> prev \<longrightarrow>
      fst (poll_hat prev hat) =
        (case hat_buttons prev of Some b \<Rightarrow> [ButtonReleased b] | None \<Rightarrow> []) @
        (case hat_buttons hat of Some b \<Rightarrow> [ButtonPressed b] | None \<Rightarrow> [])"
    by (simp add: poll_hat_def)
  have link: "\<forall>w samples. map snd (fst (run_tagged w samples)) = fst (run w samples) \<and>
      snd (run_tagged w samples) = snd (run w samples)"
    using run_untag by blast
  have start: "last_hat_state init_worker = (0, 0)" by (simp add: init_worker_def)
  have hats: "\<forall>samples. hat_part (fst (run_tagged init_worker samples)) =
      fst (poll_hats (0, 0) (hat_readings samples))"
    using hat_part_run [of init_worker] by (simp add: start)
  have pre: "\<forall>samples n.
      card (held {} (hat_part (take n (fst (run_tagged init_worker samples))))) \<le> 1"
    using run_hat_prefix by blast
  have state: "\<forall>samples. held {} (hat_part (fst (run_tagged init_worker samples))) =
      hat_held (last_hat_state (snd (run init_worker samples)))"
    using run_hat_state by blast
  have raw: "\<forall>samples n. (\<forall>d. Some d \<in> set samples \<longrightarrow> length (dev_buttons d) \<le> 12) \<longrightarrow>
      card (held {} (take n (fst (run init_worker samples))) \<inter> dpad) \<le> 1"
    using run_dpad_prefix by blast
  have rest: "hat_held (0, 0) = {}"
    by (simp add: hat_held_def hat_buttons_def)
  have inv: "\<forall>hs n. card (held {} (take n (fst (poll_hats (0, 0) hs)))) \<le> 1"
    using held_poll_hats_prefix [of "(0, 0)"] by (simp add: rest)
  have c1: "poll_hat (0, 0) (0, 1) = ([ButtonPressed 12], (0, 1))"
    by (simp add: poll_hat_def hat_buttons_def)
  have c2: "poll_hat (0, 1) (- 1, 0) = ([ButtonReleased 12, ButtonPressed 14], (- 1, 0))"
    by (simp add: poll_hat_def hat_buttons_def)
  have c3: "poll_hat (- 1, 0) (0, 0) = ([ButtonReleased 14], (0, 0))"
    by (simp add: poll_hat_def hat_buttons_def)
  have c4: "poll_hat (0, 0) (0, 0) = ([], (0, 0))"
    by (simp add: poll_hat_def)
  have c5: "fst (poll_hats (0, 0) [(0, 1), (- 1, 0), (0, 0), (0, 0)]) =
     [ButtonPressed 12, ButtonReleased 12, ButtonPressed 14, ButtonReleased 14]"
    by (simp add: c1 c2 c3 c4)
  show ?thesis
    by (intro conjI step link hats pre state raw inv c1 c2 c3 c4 c5 run_hat_sequence)
qed

theorem hat_release_before_press_witness:
  "(- 1, 0) \<noteq> ((0, 1) :: int \<times> int) \<and>
   fst (poll_hat (0, 1) (- 1, 0)) = [ButtonReleased 12, ButtonPressed 14] \<and>
   fst (run init_worker
     [Some \<lparr>dev_name = ''pad'', dev_buttons = [True, False], dev_axes = [],
            dev_hats = [(0, 1)]\<rparr>,
      Some \<lparr>dev_name = ''pad'', dev_buttons = [False, True], dev_axes = [],
            dev_hats = [(- 1, 0)]\<rparr>]) =
     [Connected ''pad'', ButtonPressed 0, ButtonPressed 12, ButtonReleased 0, ButtonPressed 1,
      ButtonReleased 12, ButtonPressed 14] \<and>
   card (held {} (take 6 (fst (run init_worker
     [Some \<lparr>dev_name = ''pad'', dev_buttons = [True, False], dev_axes = [],
            dev_hats = [(0, 1)]\<rparr>,
      Some \<lparr>dev_name = ''pad'', dev_buttons = [False, True], dev_axes = [],
            dev_hats = [(- 1, 0)]\<rparr>]))) \<inter> dpad) \<le> 1"
proof -
  let ?samples = "[Some \<lparr>dev_name = ''pad'', dev_buttons = [True, False], dev_axes = [],
            dev_hats = [(0, 1)]\<rparr>,
      Some \<lparr>dev_name = ''pad'', dev_buttons = [False, True], dev_axes = [],
            dev_hats = [(- 1, 0)]\<rparr>]"
  have ne: "(- 1, 0) \<noteq> ((0, 1) :: int \<times> int)" by simp
  have "fst (poll_hat (0, 1) (- 1, 0)) =
        (case hat_buttons (0, 1) of Some b \<Rightarrow> [ButtonReleased b] | None \<Rightarrow> []) @
        (case hat_buttons (- 1, 0) of Some b \<Rightarrow> [ButtonPressed b] | None \<Rightarrow> [])"
    by (rule hat_release_before_press [THEN conjunct1, rule_format, OF ne])
  then have ev: "fst (poll_hat (0, 1) (- 1, 0)) = [ButtonReleased 12, ButtonPressed 14]"
    by (simp add: hat_buttons_def)
  have few: "\<forall>d. Some d \<in> set ?samples \<longrightarrow> length (dev_buttons d) \<le> 12"
    by auto
  have evs: "fst (run init_worker ?samples) =
     [Connected ''pad'', ButtonPressed 0, ButtonPressed 12, ButtonReleased 0, ButtonPressed 1,
      ButtonReleased 12, ButtonPressed 14]"
    by (simp add: poll_def init_worker_def poll_hat_def hat_buttons_def)
  have one: "card (held {} (take 6 (fst (run init_worker ?samples))) \<inter> dpad) \<le> 1"
    by (rule hat_release_before_press [THEN conjunct2, THEN conjunct2, THEN conjunct2,
          THEN conjunct2, THEN conjunct2, THEN conjunct1, THEN spec, THEN spec, THEN mp,
          OF few])
  show ?thesis by (intro conjI ne ev evs one)
qed

section \<open>Tab switching\<close>

text \<open>
  C10. With \<open>n > 0\<close> tabs and current index \<open>c\<close>, \<open>next_tab\<close> moves to \<open>(c + 1) mod n\<close>
  and \<open>prev_tab\<close> to \<open>(c - 1) mod n\<close>; so \<open>prev_tab\<close> on the first tab lands on the last
  one and \<open>next_tab\<close> on the last tab lands on the first.
\<close>

theorem tab_switching_wraps:
  assumes "0 < count t"
  shows "next_tab t = Inr (t\<lparr>currentIndex := (currentIndex t + 1) mod int (count t)\<rparr>) \<and>
         prev_tab t = Inr (t\<lparr>currentIndex := (currentIndex t - 1) mod int (count t)\<rparr>) \<and>
         (currentIndex t = 0 \<longrightarrow>
            prev_tab t = Inr (t\<lparr>currentIndex := int (count t) - 1\<rparr>)) \<and>
         (currentIndex t = int (count t) - 1 \<longrightarrow>
            next_tab t = Inr (t\<lparr>currentIndex := 0\<rparr>))"
proof -
  let ?n = "int (count t)"
  have n: "0 < ?n" using assms by simp
  have up: "0 \<le> (currentIndex t + 1) mod ?n \<and> (currentIndex t + 1) mod ?n < ?n"
    using n by simp
  have down: "0 \<le> (currentIndex t - 1) mod ?n \<and> (currentIndex t - 1) mod ?n < ?n"
    using n by simp
  have nx: "next_tab t = Inr (t\<lparr>currentIndex := (currentIndex t + 1) mod ?n\<rparr>)"
    using assms up by (simp add: next_tab_def setCurrentIndex_def)
  have pv: "prev_tab t = Inr (t\<lparr>currentIndex := (currentIndex t - 1) mod ?n\<rparr>)"
    using assms down by (simp add: prev_tab_def setCurrentIndex_def)
  have first: "currentIndex t = 0 \<Longrightarrow> (currentIndex t - 1) mod ?n = ?n - 1"
    using n by (simp add: zmod_minus1)
  have lst: "currentIndex t = ?n - 1 \<Longrightarrow> (currentIndex t + 1) mod ?n = 0"
    by simp
  show ?thesis using nx pv first lst by simp
qed

theorem tab_switching_wraps_witness:
  "prev_tab \<lparr>currentIndex = 0, count = 7\<rparr> = Inr \<lparr>currentIndex = 6, count = 7\<rparr> \<and>
   next_tab \<lparr>currentIndex = 6, count = 7\<rparr> = Inr \<lparr>currentIndex = 0, count = 7\<rparr> \<and>
   next_tab \<lparr>currentIndex = 2, count = 7\<rparr> = Inr \<lparr>currentIndex = 3, count = 7\<rparr>"
  using tab_switching_wraps [of "\<lparr>currentIndex = 0, count = 7\<rparr>"]
        tab_switching_wraps [of "\<lparr>currentIndex = 6, count = 7\<rparr>"]
        tab_switching_wraps [of "\<lparr>currentIndex = 2, count = 7\<rparr>"]
  by simp

section \<open>Deleting profiles\<close>

lemma endswith_append: "endswith (name @ suf) suf"
  by (simp add: endswith_def)

lemma strip_json:
  assumes "endswith f ''.json''" and "take (length f - 5) f = name"
  shows "f = profile_path name"
proof -
  have len: "length ''.json'' = 5" by simp
  have "drop (length f - length ''.json'') f = ''.json''"
    using assms(1) unfolding endswith_def by blast
  then have "drop (length f - 5) f = ''.json''" unfolding len .
  then have "take (length f - 5) f @ drop (length f - 5) f = name @ ''.json''"
    using assms(2) by simp
  then show ?thesis by (simp add: profile_path_def)
qed

lemma strip_profile_path: "take (length (profile_path name) - 5) (profile_path name) = name"
  by (simp add: profile_path_def)

lemma set_get_profile_list:
  "set (get_profile_list c) =
     {name. profile_path name \<in> fst ` set (profiles_dir c)}"
proof -
  have "set (get_profile_list c) =
        (\<lambda>f. take (length f - 5) f) ` {f \<in> fst ` set (profiles_dir c). endswith f ''.json''}"
    by (auto simp: get_profile_list_def)
  also have "\<dots> = {name. profile_path name \<in> fst ` set (profiles_dir c)}"
  proof (rule set_eqI, rule iffI)
    fix name
    assume "name \<in> (\<lambda>f. take (length f - 5) f) `
              {f \<in> fst ` set (profiles_dir c). endswith f ''.json''}"
    then obtain f where f: "f \<in> fst ` set (profiles_dir c)" "endswith f ''.json''"
        "name = take (length f - 5) f" by blast
    then have "f = profile_path name" using strip_json by blast
    with f(1) show "name \<in> {name. profile_path name \<in> fst ` set (profiles_dir c)}" by simp
  next
    fix name
    assume "name \<in> {name. profile_path name \<in> fst ` set (profiles_dir c)}"
    then have in_dir: "profile_path name \<in> fst ` set (profiles_dir c)" by simp
    have "endswith (profile_path name) ''.json''"
      by (simp add: profile_path_def endswith_append)
    with in_dir have "profile_path name \<in>
        {f \<in> fst ` set (profiles_dir c). endswith f ''.json''}" by simp
    then have "take (length (profile_path name) - 5) (profile_path name) \<in>
        (\<lambda>f. take (length f - 5) f) ` {f \<in> fst ` set (profiles_dir c). endswith f ''.json''}"
      by (rule imageI)
    then show "name \<in> (\<lambda>f. take (length f - 5) f) `
              {f \<in> fst ` set (profiles_dir c). endswith f ''.json''}"
      by (simp add: strip_profile_path)
  qed
  finally show ?thesis .
qed

lemma exists_iff: "exists c path \<longleftrightarrow> path \<in> fst ` set (profiles_dir c)"
  by (simp add: exists_def map_of_eq_None_iff)

lemma profile_path_inj: "profile_path a = profile_path b \<longleftrightarrow> a = b"
  by (simp add: profile_path_def)

lemma fst_set_delete: "fst ` set (AList.delete k ps) = fst ` set ps - {k}"
  by (induction ps) auto

text \<open>
  C9. Deleting one of the built-in names \<open>default\<close>, \<open>xbox\<close>, \<open>playstation\<close> returns
  False and leaves the store as it is (the result is a value, not an exception).
  Deleting a stored profile with another name returns True, and afterwards the name is
  not in the profile list while every other name is listed exactly as before. Deleting a
  profile that is not stored returns False and changes nothing.
\<close>

theorem delete_gamepad_profile_spec:
  "(name \<in> {''default'', ''xbox'', ''playstation''} \<longrightarrow>
      delete_gamepad_profile c name = (c, False)) \<and>
   (name \<notin> {''default'', ''xbox'', ''playstation''} \<and> name \<in> set (get_profile_list c) \<longrightarrow>
      snd (delete_gamepad_profile c name) = True \<and>
      name \<notin> set (get_profile_list (fst (delete_gamepad_profile c name))) \<and>
      set (get_profile_list (fst (delete_gamepad_profile c name))) =
        set (get_profile_list c) - {name}) \<and>
   (name \<notin> set (get_profile_list c) \<longrightarrow> delete_gamepad_profile c name = (c, False))"
proof -
  have listed: "name \<in> set (get_profile_list c) \<longleftrightarrow> exists c (profile_path name)"
    by (simp add: set_get_profile_list exists_iff)
  have builtin: "name \<in> {''default'', ''xbox'', ''playstation''} \<longrightarrow>
      delete_gamepad_profile c name = (c, False)"
    by (auto simp: delete_gamepad_profile_def)
  have missing: "name \<notin> set (get_profile_list c) \<longrightarrow>
      delete_gamepad_profile c name = (c, False)"
    using listed by (simp add: delete_gamepad_profile_def)
  have user: "name \<notin> {''default'', ''xbox'', ''playstation''} \<and>
      name \<in> set (get_profile_list c) \<longrightarrow>
      snd (delete_gamepad_profile c name) = True \<and>
      name \<notin> set (get_profile_list (fst (delete_gamepad_profile c name))) \<and>
      set (get_profile_list (fst (delete_gamepad_profile c name))) =
        set (get_profile_list c) - {name}"
  proof
    assume a: "name \<notin> {''default'', ''xbox'', ''playstation''} \<and>
      name \<in> set (get_profile_list c)"
    then have ex: "exists c (profile_path name)" using listed by simp
    from a ex have del: "delete_gamepad_profile c name =
        (c\<lparr>profiles_dir := AList.delete (profile_path name) (profiles_dir c)\<rparr>, True)"
      by (simp add: delete_gamepad_profile_def)
    have after: "set (get_profile_list (fst (delete_gamepad_profile c name))) =
        set (get_profile_list c) - {name}"
      by (auto simp: del set_get_profile_list fst_set_delete profile_path_inj)
    from del after show "snd (delete_gamepad_profile c name) = True \<and>
      name \<notin> set (get_profile_list (fst (delete_gamepad_profile c name))) \<and>
      set (get_profile_list (fst (delete_gamepad_profile c name))) =
        set (get_profile_list c) - {name}"
      by simp
  qed
  from builtin user missing show ?thesis by blast
qed

lemma example_store_list:
  "set (get_profile_list example_store) =
     {''default'', ''racing'', ''broken'', ''array'', ''binary'', ''bare''}"
  by (auto simp: set_get_profile_list example_store_def profile_path_def)

theorem delete_gamepad_profile_spec_witness:
  "''default'' \<in> {''default'', ''xbox'', ''playstation''} \<and>
   delete_gamepad_profile example_store ''default'' = (example_store, False) \<and>
   ''racing'' \<notin> {''default'', ''xbox'', ''playstation''} \<and>
   ''racing'' \<in> set (get_profile_list example_store) \<and>
   snd (delete_gamepad_profile example_store ''racing'') = True \<and>
   ''racing'' \<notin> set (get_profile_list (fst (delete_gamepad_profile example_store ''racing''))) \<and>
   ''nope'' \<notin> set (get_profile_list example_store) \<and>
   delete_gamepad_profile example_store ''nope'' = (example_store, False)"
proof -
  have a: "''default'' \<in> {''default'', ''xbox'', ''playstation''}" by simp
  have b: "''racing'' \<notin> {''default'', ''xbox'', ''playstation''}" by simp
  have c: "''racing'' \<in> set (get_profile_list example_store)"
    by (simp add: example_store_list)
  have d: "''nope'' \<notin> set (get_profile_list example_store)"
    by (simp add: example_store_list)
  note dflt = delete_gamepad_profile_spec [of "''default''" example_store]
  note racing = delete_gamepad_profile_spec [of "''racing''" example_store]
  note nope = delete_gamepad_profile_spec [of "''nope''" example_store]
  have r1: "delete_gamepad_profile example_store ''default'' = (example_store, False)"
    by (rule dflt [THEN conjunct1, THEN mp, OF a])
  have r2: "snd (delete_gamepad_profile example_store ''racing'') = True \<and>
      ''racing'' \<notin> set (get_profile_list (fst (delete_gamepad_profile example_store ''racing''))) \<and>
      set (get_profile_list (fst (delete_gamepad_profile example_store ''racing''))) =
        set (get_profile_list example_store) - {''racing''}"
    by (rule racing [THEN conjunct2, THEN conjunct1, THEN mp, OF conjI [OF b c]])
  have r3: "delete_gamepad_profile example_store ''nope'' = (example_store, False)"
    by (rule nope [THEN conjunct2, THEN conjunct2, THEN mp, OF d])
  show ?thesis
    by (intro conjI a b c d r1 r3 r2 [THEN conjunct1] r2 [THEN conjunct2, THEN conjunct1])
qed

section \<open>Focus navigation\<close>

text \<open>
  What the search loop returns from any starting pair \<open>(b0, s0)\<close>: either nothing in
  the list beats \<open>s0\<close> and the pair is unchanged, or the result is the first widget of
  the list with the least score, and that score is below \<open>s0\<close>.
\<close>

lemma find_best_char:
  "find_best d p ws (b0, s0) = (b, s) \<Longrightarrow>
   ((b, s) = (b0, s0) \<and>
      (\<forall>w\<in>set ws. \<forall>t. direction_score d (fst (center w) - fst p) (snd (center w) - snd p) = Some t
          \<longrightarrow> (\<exists>s0'. s0 = Some s0' \<and> s0' \<le> t)))
   \<or> (\<exists>pre w post t. ws = pre @ w # post \<and> b = Some w \<and> s = Some t \<and>
         direction_score d (fst (center w) - fst p) (snd (center w) - snd p) = Some t \<and>
         (\<forall>s0'. s0 = Some s0' \<longrightarrow> t < s0') \<and>
         (\<forall>x\<in>set pre. \<forall>u. direction_score d (fst (center x) - fst p) (snd (center x) - snd p) = Some u \<longrightarrow> t < u) \<and>
         (\<forall>x\<in>set post. \<forall>u. direction_score d (fst (center x) - fst p) (snd (center x) - snd p) = Some u \<longrightarrow> t \<le> u))"
proof (induction ws arbitrary: b0 s0)
  case Nil
  then show ?case by simp
next
  case (Cons a ws)
  let ?sc = "\<lambda>w. direction_score d (fst (center w) - fst p) (snd (center w) - snd p)"
  show ?case
  proof (cases "?sc a")
    case None
    then have "find_best d p ws (b0, s0) = (b, s)" using Cons.prems by (simp add: Let_def)
    from Cons.IH [OF this] show ?thesis
    proof
      assume "(b, s) = (b0, s0) \<and> (\<forall>w\<in>set ws. \<forall>t. ?sc w = Some t \<longrightarrow> (\<exists>s0'. s0 = Some s0' \<and> s0' \<le> t))"
      then show ?thesis using None by auto
    next
      assume "\<exists>pre w post t. ws = pre @ w # post \<and> b = Some w \<and> s = Some t \<and>
         ?sc w = Some t \<and> (\<forall>s0'. s0 = Some s0' \<longrightarrow> t < s0') \<and>
         (\<forall>x\<in>set pre. \<forall>u. ?sc x = Some u \<longrightarrow> t < u) \<and>
         (\<forall>x\<in>set post. \<forall>u. ?sc x = Some u \<longrightarrow> t \<le> u)"
      then obtain pre w post t where h: "ws = pre @ w # post" "b = Some w" "s = Some t"
         "?sc w = Some t" "\<forall>s0'. s0 = Some s0' \<longrightarrow> t < s0'"
         "\<forall>x\<in>set pre. \<forall>u. ?sc x = Some u \<longrightarrow> t < u"
         "\<forall>x\<in>set post. \<forall>u. ?sc x = Some u \<longrightarrow> t \<le> u" by blast
      have "a # ws = (a # pre) @ w # post" using h(1) by simp
      moreover have "\<forall>x\<in>set (a # pre). \<forall>u. ?sc x = Some u \<longrightarrow> t < u" using h(6) None by simp
      ultimately show ?thesis using h by blast
    qed
  next
    case (Some ta)
    show ?thesis
    proof (cases "case s0 of None \<Rightarrow> True | Some b \<Rightarrow> ta < b")
      case True
      then have "find_best d p ws (Some a, Some ta) = (b, s)"
        using Cons.prems Some by (simp add: Let_def)
      from Cons.IH [OF this] show ?thesis
      proof
        assume c1: "(b, s) = (Some a, Some ta) \<and> (\<forall>w\<in>set ws. \<forall>t. ?sc w = Some t \<longrightarrow> (\<exists>s0'. Some ta = Some s0' \<and> s0' \<le> t))"
        have "a # ws = [] @ a # ws" by simp
        moreover have "\<forall>s0'. s0 = Some s0' \<longrightarrow> ta < s0'" using True by (auto split: option.splits)
        moreover have "\<forall>x\<in>set ws. \<forall>u. ?sc x = Some u \<longrightarrow> ta \<le> u" using c1 by auto
        moreover have "\<forall>x\<in>set []. \<forall>u. ?sc x = Some u \<longrightarrow> ta < u" by simp
        ultimately show ?thesis using c1 Some by blast
      next
        assume "\<exists>pre w post t. ws = pre @ w # post \<and> b = Some w \<and> s = Some t \<and>
         ?sc w = Some t \<and> (\<forall>s0'. Some ta = Some s0' \<longrightarrow> t < s0') \<and>
         (\<forall>x\<in>set pre. \<forall>u. ?sc x = Some u \<longrightarrow> t < u) \<and>
         (\<forall>x\<in>set post. \<forall>u. ?sc x = Some u \<longrightarrow> t \<le> u)"
        then obtain pre w post t where h: "ws = pre @ w # post" "b = Some w" "s = Some t"
         "?sc w = Some t" "t < ta"
         "\<forall>x\<in>set pre. \<forall>u. ?sc x = Some u \<longrightarrow> t < u"
         "\<forall>x\<in>set post. \<forall>u. ?sc x = Some u \<longrightarrow> t \<le> u" by auto
        have "a # ws = (a # pre) @ w # post" using h(1) by simp
        moreover have "\<forall>x\<in>set (a # pre). \<forall>u. ?sc x = Some u \<longrightarrow> t < u" using h(5,6) Some by simp
        moreover have "\<forall>s0'. s0 = Some s0' \<longrightarrow> t < s0'" using True h(5) by (auto split: option.splits)
        ultimately show ?thesis using h by blast
      qed
    next
      case False
      then obtain s0' where s0: "s0 = Some s0'" "s0' \<le> ta" by (auto split: option.splits)
      from False have "find_best d p ws (b0, s0) = (b, s)"
        using Cons.prems Some by (simp add: Let_def)
      from Cons.IH [OF this] show ?thesis
      proof
        assume "(b, s) = (b0, s0) \<and> (\<forall>w\<in>set ws. \<forall>t. ?sc w = Some t \<longrightarrow> (\<exists>s0'. s0 = Some s0' \<and> s0' \<le> t))"
        then show ?thesis using Some s0 by auto
      next
        assume "\<exists>pre w post t. ws = pre @ w # post \<and> b = Some w \<and> s = Some t \<and>
         ?sc w = Some t \<and> (\<forall>s0'. s0 = Some s0' \<longrightarrow> t < s0') \<and>
         (\<forall>x\<in>set pre. \<forall>u. ?sc x = Some u \<longrightarrow> t < u) \<and>
         (\<forall>x\<in>set post. \<forall>u. ?sc x = Some u \<longrightarrow> t \<le> u)"
        then obtain pre w post t where h: "ws = pre @ w # post" "b = Some w" "s = Some t"
         "?sc w = Some t" "\<forall>s0'. s0 = Some s0' \<longrightarrow> t < s0'"
         "\<forall>x\<in>set pre. \<forall>u. ?sc x = Some u \<longrightarrow> t < u"
         "\<forall>x\<in>set post. \<forall>u. ?sc x = Some u \<longrightarrow> t \<le> u" by blast
        have "a # ws = (a # pre) @ w # post" using h(1) by simp
        moreover have "t < ta" using h(5) s0 by auto
        then have "\<forall>x\<in>set (a # pre). \<forall>u. ?sc x = Some u \<longrightarrow> t < u" using h(6) Some by simp
        ultimately show ?thesis using h by blast
      qed
    qed
  qed
qed

lemma candidates_filter:
  "candidates d cur ws =
     filter (\<lambda>w. widget_score d cur w \<noteq> None)
       (filter (\<lambda>w. visible w \<and> enabled w \<and> focusable w \<and> wid w \<noteq> wid cur) ws)"
  by (simp add: candidates_def conj_ac)

lemma navigate_focus_candidates:
  "(candidates d cur ws = [] \<longrightarrow> navigate_focus d (Some cur) ws = NoChange) \<and>
   (candidates d cur ws \<noteq> [] \<longrightarrow>
      (\<exists>pre best post t.
         candidates d cur ws = pre @ best # post \<and>
         navigate_focus d (Some cur) ws = SetFocus best \<and>
         widget_score d cur best = Some t \<and>
         (\<forall>x\<in>set pre. \<exists>u. widget_score d cur x = Some u \<and> t < u) \<and>
         (\<forall>x\<in>set post. \<exists>u. widget_score d cur x = Some u \<and> t \<le> u)))"
proof -
  let ?F = "filter (\<lambda>w. visible w \<and> enabled w \<and> focusable w \<and> wid w \<noteq> wid cur) ws"
  let ?P = "\<lambda>w. widget_score d cur w \<noteq> None"
  obtain b s where fb: "find_best d (center cur) ?F (None, None) = (b, s)"
    by (cases "find_best d (center cur) ?F (None, None)")
  have nav: "navigate_focus d (Some cur) ws =
      (case b of None \<Rightarrow> NoChange | Some best \<Rightarrow> SetFocus best)"
    using fb by (cases "?F = []") (auto simp: navigate_focus_def Let_def)
  have cf: "candidates d cur ws = filter ?P ?F" by (rule candidates_filter)
  from find_best_char [OF fb] show ?thesis
  proof
    assume "(b, s) = (None, None) \<and>
      (\<forall>w\<in>set ?F. \<forall>t. direction_score d (fst (center w) - fst (center cur))
           (snd (center w) - snd (center cur)) = Some t \<longrightarrow>
           (\<exists>s0'. None = Some s0' \<and> s0' \<le> t))"
    then have b: "b = None" and none: "\<forall>w\<in>set ?F. widget_score d cur w = None"
      by (auto simp: widget_score_def)
    have "filter ?P ?F = []"
    proof -
      have "\<And>xs. \<forall>w\<in>set xs. widget_score d cur w = None \<Longrightarrow> filter ?P xs = []"
        by (simp add: filter_empty_conv)
      from this [OF none] show ?thesis .
    qed
    then show ?thesis using nav b cf by simp
  next
    assume "\<exists>pre w post t. ?F = pre @ w # post \<and> b = Some w \<and> s = Some t \<and>
         direction_score d (fst (center w) - fst (center cur))
           (snd (center w) - snd (center cur)) = Some t \<and>
         (\<forall>s0'. None = Some s0' \<longrightarrow> t < s0') \<and>
         (\<forall>x\<in>set pre. \<forall>u. direction_score d (fst (center x) - fst (center cur))
             (snd (center x) - snd (center cur)) = Some u \<longrightarrow> t < u) \<and>
         (\<forall>x\<in>set post. \<forall>u. direction_score d (fst (center x) - fst (center cur))
             (snd (center x) - snd (center cur)) = Some u \<longrightarrow> t \<le> u)"
    then obtain pre w post t where h: "?F = pre @ w # post" "b = Some w"
        "widget_score d cur w = Some t"
        "\<forall>x\<in>set pre. \<forall>u. widget_score d cur x = Some u \<longrightarrow> t < u"
        "\<forall>x\<in>set post. \<forall>u. widget_score d cur x = Some u \<longrightarrow> t \<le> u"
      unfolding widget_score_def by blast
    have split: "candidates d cur ws = filter ?P pre @ w # filter ?P post"
      using cf h(1) h(3) by simp
    have pre: "\<forall>x\<in>set (filter ?P pre). \<exists>u. widget_score d cur x = Some u \<and> t < u"
      using h(4) by auto
    have post: "\<forall>x\<in>set (filter ?P post). \<exists>u. widget_score d cur x = Some u \<and> t \<le> u"
      using h(5) by auto
    have set_focus: "navigate_focus d (Some cur) ws = SetFocus w" using nav h(2) by simp
    have ne: "candidates d cur ws \<noteq> []" using split by simp
    have "\<exists>pre best post t.
         candidates d cur ws = pre @ best # post \<and>
         navigate_focus d (Some cur) ws = SetFocus best \<and>
         widget_score d cur best = Some t \<and>
         (\<forall>x\<in>set pre. \<exists>u. widget_score d cur x = Some u \<and> t < u) \<and>
         (\<forall>x\<in>set post. \<exists>u. widget_score d cur x = Some u \<and> t \<le> u)"
      by (intro exI conjI) (rule split, rule set_focus, rule h(3), rule pre, rule post)
    with ne show ?thesis by simp
  qed
qed

text \<open>
  C5. A widget is scored only when its centre lies more than 20 units from the current
  widget's centre along the primary axis of the direction (down: \<open>dy > 20\<close>, up:
  \<open>dy < -20\<close>, right: \<open>dx > 20\<close>, left: \<open>dx < -20\<close>), and its score is the distance
  along that axis plus twice the absolute distance along the other axis. Among the
  eligible widgets that lie in the direction, taken in traversal order, the one that
  receives the focus is the first with the least score: every earlier candidate has a
  strictly greater score and every later one a score at least as great. When there is no
  such candidate the focus does not change. With the current widget at (100,100) and
  others at (100,200), (300,100) and (50,50), navigating down focuses the one at
  (100,200).
\<close>

theorem navigate_focus_spec:
  "(\<forall>dx dy. direction_score ''down'' dx dy =
       (if dy > 20 then Some (dy + 2 * \<bar>dx\<bar>) else None)) \<and>
   (\<forall>dx dy. direction_score ''up'' dx dy =
       (if dy < - 20 then Some (- dy + 2 * \<bar>dx\<bar>) else None)) \<and>
   (\<forall>dx dy. direction_score ''right'' dx dy =
       (if dx > 20 then Some (dx + 2 * \<bar>dy\<bar>) else None)) \<and>
   (\<forall>dx dy. direction_score ''left'' dx dy =
       (if dx < - 20 then Some (- dx + 2 * \<bar>dy\<bar>) else None)) \<and>
   (\<forall>d cur ws.
      (candidates d cur ws = [] \<longrightarrow> navigate_focus d (Some cur) ws = NoChange) \<and>
      (candidates d cur ws \<noteq> [] \<longrightarrow>
         (\<exists>pre best post t.
            candidates d cur ws = pre @ best # post \<and>
            navigate_focus d (Some cur) ws = SetFocus best \<and>
            widget_score d cur best = Some t \<and>
            (\<forall>x\<in>set pre. \<exists>u. widget_score d cur x = Some u \<and> t < u) \<and>
            (\<forall>x\<in>set post. \<exists>u. widget_score d cur x = Some u \<and> t \<le> u)))) \<and>
   navigate_focus ''down'' (Some (widget_at 0 (100, 100)))
     [widget_at 0 (100, 100), widget_at 1 (100, 200), widget_at 2 (300, 100),
      widget_at 3 (50, 50)] = SetFocus (widget_at 1 (100, 200))"
proof -
  have down: "\<forall>dx dy. direction_score ''down'' dx dy =
       (if dy > 20 then Some (dy + 2 * \<bar>dx\<bar>) else None)"
    by (simp add: direction_score_def)
  have up: "\<forall>dx dy. direction_score ''up'' dx dy =
       (if dy < - 20 then Some (- dy + 2 * \<bar>dx\<bar>) else None)"
    by (simp add: direction_score_def)
  have right: "\<forall>dx dy. direction_score ''right'' dx dy =
       (if dx > 20 then Some (dx + 2 * \<bar>dy\<bar>) else None)"
    by (simp add: direction_score_def)
  have left: "\<forall>dx dy. direction_score ''left'' dx dy =
       (if dx < - 20 then Some (- dx + 2 * \<bar>dy\<bar>) else None)"
    by (simp add: direction_score_def)
  have example: "navigate_focus ''down'' (Some (widget_at 0 (100, 100)))
     [widget_at 0 (100, 100), widget_at 1 (100, 200), widget_at 2 (300, 100),
      widget_at 3 (50, 50)] = SetFocus (widget_at 1 (100, 200))"
    by (simp add: navigate_focus_def widget_at_def direction_score_def)
  show ?thesis
    by (intro conjI allI down [rule_format] up [rule_format] right [rule_format]
          left [rule_format] example
          navigate_focus_candidates [THEN conjunct1] navigate_focus_candidates [THEN conjunct2])
qed

theorem navigate_focus_spec_witness:
  "candidates ''right'' (widget_at 0 (100, 100))
     [widget_at 0 (100, 100), widget_at 1 (200, 130), widget_at 2 (160, 100),
      widget_at 3 (50, 50), widget_at 4 (140, 110)] =
     [widget_at 1 (200, 130), widget_at 2 (160, 100), widget_at 4 (140, 110)] \<and>
   navigate_focus ''right'' (Some (widget_at 0 (100, 100)))
     [widget_at 0 (100, 100), widget_at 1 (200, 130), widget_at 2 (160, 100),
      widget_at 3 (50, 50), widget_at 4 (140, 110)] = SetFocus (widget_at 2 (160, 100)) \<and>
   (\<exists>pre best post t.
      candidates ''right'' (widget_at 0 (100, 100))
        [widget_at 0 (100, 100), widget_at 1 (200, 130), widget_at 2 (160, 100),
         widget_at 3 (50, 50), widget_at 4 (140, 110)] = pre @ best # post \<and>
      navigate_focus ''right'' (Some (widget_at 0 (100, 100)))
        [widget_at 0 (100, 100), widget_at 1 (200, 130), widget_at 2 (160, 100),
         widget_at 3 (50, 50), widget_at 4 (140, 110)] = SetFocus best \<and>
      widget_score ''right'' (widget_at 0 (100, 100)) best = Some t \<and>
      (\<forall>x\<in>set pre. \<exists>u. widget_score ''right'' (widget_at 0 (100, 100)) x = Some u \<and> t < u) \<and>
      (\<forall>x\<in>set post. \<exists>u. widget_score ''right'' (widget_at 0 (100, 100)) x = Some u \<and> t \<le> u)) \<and>
   candidates ''up'' (widget_at 0 (100, 100)) [widget_at 1 (100, 200)] = [] \<and>
   navigate_focus ''up'' (Some (widget_at 0 (100, 100))) [widget_at 1 (100, 200)] = NoChange"
proof -
  let ?cur = "widget_at 0 (100, 100)"
  let ?ws = "[widget_at 0 (100, 100), widget_at 1 (200, 130), widget_at 2 (160, 100),
      widget_at 3 (50, 50), widget_at 4 (140, 110)]"
  have c: "candidates ''right'' ?cur ?ws =
      [widget_at 1 (200, 130), widget_at 2 (160, 100), widget_at 4 (140, 110)]"
    by (simp add: candidates_def widget_score_def direction_score_def widget_at_def)
  then have ne: "candidates ''right'' ?cur ?ws \<noteq> []" by simp
  have e: "candidates ''up'' ?cur [widget_at 1 (100, 200)] = []"
    by (simp add: candidates_def widget_score_def direction_score_def widget_at_def)
  note spec = navigate_focus_spec [THEN conjunct2, THEN conjunct2, THEN conjunct2,
      THEN conjunct2, THEN conjunct1, rule_format]
  have n: "navigate_focus ''right'' (Some ?cur) ?ws = SetFocus (widget_at 2 (160, 100))"
    by (simp add: navigate_focus_def widget_at_def direction_score_def)
  show ?thesis
    by (intro conjI c n e spec [THEN conjunct2, THEN mp, OF ne] spec [THEN conjunct1, THEN mp, OF e])
qed

section \<open>Axis events\<close>

lemma poll_axes_member:
  "AxisMoved j x \<in> set (poll_axes dz k vs) \<longleftrightarrow>
     k \<le> j \<and> nat (j - k) < length vs \<and> x = vs ! nat (j - k) \<and> \<bar>x\<bar> > dz"
proof (induction vs arbitrary: k)
  case Nil
  then show ?case by simp
next
  case (Cons v vs)
  show ?case
  proof (cases "j = k")
    case True
    then show ?thesis using Cons.IH [of "k + 1"] by auto
  next
    case False
    have "k \<le> j \<Longrightarrow> nat (j - k) = Suc (nat (j - (k + 1)))" using False by simp
    then show ?thesis using False Cons.IH [of "k + 1"] by auto
  qed
qed

lemma poll_buttons_no_axis: "AxisMoved j x \<notin> set (fst (poll_buttons prev i bs))"
proof (induction bs arbitrary: prev i)
  case Nil
  then show ?case by simp
next
  case (Cons b bs)
  obtain evs' prev' where r: "poll_buttons (prev(i \<mapsto> b)) (i + 1) bs = (evs', prev')"
    by (cases "poll_buttons (prev(i \<mapsto> b)) (i + 1) bs")
  have "AxisMoved j x \<notin> set (fst (poll_buttons (prev(i \<mapsto> b)) (i + 1) bs))"
    by (rule Cons.IH)
  then have "AxisMoved j x \<notin> set evs'" unfolding r by simp
  then show ?case using r by (simp add: Let_def)
qed

lemma poll_hat_no_axis: "AxisMoved j x \<notin> set (fst (poll_hat prev h))"
  by (auto simp: poll_hat_def split: option.splits)

lemma poll_hats_no_axis: "AxisMoved j x \<notin> set (fst (poll_hats prev hs))"
proof (induction hs arbitrary: prev)
  case Nil
  then show ?case by simp
next
  case (Cons h hs)
  obtain evs p' where a: "poll_hat prev h = (evs, p')" by (cases "poll_hat prev h")
  obtain evs' p'' where b: "poll_hats p' hs = (evs', p'')" by (cases "poll_hats p' hs")
  have "AxisMoved j x \<notin> set evs" using poll_hat_no_axis [of j x prev h] a by simp
  moreover have "AxisMoved j x \<notin> set evs'" using Cons.IH [of p'] b by simp
  ultimately show ?case using a b by simp
qed

lemma poll_axis_events:
  "AxisMoved j x \<in> set (fst (poll w (Some d))) \<longleftrightarrow>
   AxisMoved j x \<in> set (poll_axes (deadzone w) 0 (dev_axes d))"
proof -
  obtain bevs prev' where b: "poll_buttons (last_button_states w) 0 (dev_buttons d) = (bevs, prev')"
    by (cases "poll_buttons (last_button_states w) 0 (dev_buttons d)")
  obtain hevs hat' where h: "poll_hats (last_hat_state w) (dev_hats d) = (hevs, hat')"
    by (cases "poll_hats (last_hat_state w) (dev_hats d)")
  have nb: "AxisMoved j x \<notin> set bevs" using poll_buttons_no_axis [of j x "last_button_states w" 0 "dev_buttons d"] b by simp
  have nh: "AxisMoved j x \<notin> set hevs" using poll_hats_no_axis [of j x "last_hat_state w" "dev_hats d"] h by simp
  show ?thesis using b h nb nh by (cases "joystick w") (simp_all add: poll_def)
qed

lemma axis_name_cases:
  "axis_name i = (if i = 0 then ''left_x'' else if i = 1 then ''left_y''
                  else if i = 2 then ''right_x'' else if i = 3 then ''right_y''
                  else ''axis_'' @ str_int i)"
  by (simp add: axis_name_def)

text \<open>
  The axis pipeline in terms of the poller's own field \<open>deadzone\<close>. Let \<open>v\<close> be the
  raw value of axis \<open>i\<close> in an iteration of the polling loop with a device present.
  When \<open>|v|\<close> does not exceed the poller's deadzone, no axis event is emitted for
  \<open>i\<close>. When it does, the only axis event for \<open>i\<close> carries \<open>v\<close>, and
  the manager answers it with one named-axis event whose value is \<open>v\<close> times the
  configured sensitivity, negated when \<open>invert_y\<close> is set and \<open>i\<close> is 1 or 3, and whose
  name is \<open>left_x\<close>, \<open>left_y\<close>, \<open>right_x\<close>, \<open>right_y\<close> for \<open>i\<close> from 0 to 3 and
  \<open>axis_\<close> followed by the index otherwise.
\<close>

lemma axis_event_pipeline:
  assumes "getitem (analog_settings m) ''sensitivity'' = Inr (PNum s)"
    and "getitem (analog_settings m) ''invert_y'' = Inr (PBool invert)"
    and "i < length (dev_axes d)"
    and "v = dev_axes d ! i"
  shows "(\<bar>v\<bar> \<le> deadzone w \<longrightarrow> (\<forall>x. AxisMoved (int i) x \<notin> set (fst (poll w (Some d))))) \<and>
         (\<bar>v\<bar> > deadzone w \<longrightarrow>
            (\<forall>x. AxisMoved (int i) x \<in> set (fst (poll w (Some d))) \<longleftrightarrow> x = v) \<and>
            deliver m (AxisMoved (int i) v) =
              Inr (m, [NamedAxis (axis_name (int i))
                         (if invert \<and> (i = 1 \<or> i = 3) then - (v * s) else v * s)])) \<and>
         axis_name (int i) =
           (if i = 0 then ''left_x'' else if i = 1 then ''left_y''
            else if i = 2 then ''right_x'' else if i = 3 then ''right_y''
            else ''axis_'' @ str_int (int i))"
proof -
  have mem: "\<And>x. AxisMoved (int i) x \<in> set (fst (poll w (Some d))) \<longleftrightarrow>
      x = v \<and> \<bar>x\<bar> > deadzone w"
    using assms(3,4) by (auto simp: poll_axis_events poll_axes_member)
  have quiet: "\<bar>v\<bar> \<le> deadzone w \<longrightarrow> (\<forall>x. AxisMoved (int i) x \<notin> set (fst (poll w (Some d))))"
    using mem by auto
  have loud: "\<bar>v\<bar> > deadzone w \<longrightarrow>
      (\<forall>x. AxisMoved (int i) x \<in> set (fst (poll w (Some d))) \<longleftrightarrow> x = v)"
    using mem by auto
  have "on_axis_moved m (int i) v =
      Inr [NamedAxis (axis_name (int i))
             (if invert \<and> (i = 1 \<or> i = 3) then - (v * s) else v * s)]"
    using assms(1,2) by (simp add: on_axis_moved_def)
  then have out: "deliver m (AxisMoved (int i) v) =
      Inr (m, [NamedAxis (axis_name (int i))
                 (if invert \<and> (i = 1 \<or> i = 3) then - (v * s) else v * s)])"
    by simp
  have name: "axis_name (int i) =
           (if i = 0 then ''left_x'' else if i = 1 then ''left_y''
            else if i = 2 then ''right_x'' else if i = 3 then ''right_y''
            else ''axis_'' @ str_int (int i))"
    by (simp add: axis_name_cases)
  from quiet loud out name show ?thesis by simp
qed

text \<open>An instance: a manager with sensitivity 1.5 and inverted Y axes, and a device
  with six axes.\<close>

lemma axis_event_pipeline_example:
  "getitem (analog_settings (new_manager\<lparr>analog_settings := PDict
      [(KStr ''deadzone'', PNum (2 / 10)), (KStr ''sensitivity'', PNum (3 / 2)),
       (KStr ''invert_y'', PBool True)]\<rparr>)) ''sensitivity'' = Inr (PNum (3 / 2)) \<and>
   (\<forall>x. AxisMoved 0 x \<notin> set (fst (poll init_worker (Some
      \<lparr>dev_name = ''pad'', dev_buttons = [], dev_axes = [1 / 10, 1 / 2, 0, 0, 0, - 1],
       dev_hats = []\<rparr>)))) \<and>
   deliver (new_manager\<lparr>analog_settings := PDict
      [(KStr ''deadzone'', PNum (2 / 10)), (KStr ''sensitivity'', PNum (3 / 2)),
       (KStr ''invert_y'', PBool True)]\<rparr>) (AxisMoved 1 (1 / 2)) =
     Inr (new_manager\<lparr>analog_settings := PDict
      [(KStr ''deadzone'', PNum (2 / 10)), (KStr ''sensitivity'', PNum (3 / 2)),
       (KStr ''invert_y'', PBool True)]\<rparr>, [NamedAxis ''left_y'' (- (3 / 4))]) \<and>
   deliver (new_manager\<lparr>analog_settings := PDict
      [(KStr ''deadzone'', PNum (2 / 10)), (KStr ''sensitivity'', PNum (3 / 2)),
       (KStr ''invert_y'', PBool True)]\<rparr>) (AxisMoved 5 (- 1)) =
     Inr (new_manager\<lparr>analog_settings := PDict
      [(KStr ''deadzone'', PNum (2 / 10)), (KStr ''sensitivity'', PNum (3 / 2)),
       (KStr ''invert_y'', PBool True)]\<rparr>, [NamedAxis ''axis_5'' (- (3 / 2))])"
proof -
  let ?m = "new_manager\<lparr>analog_settings := PDict
      [(KStr ''deadzone'', PNum (2 / 10)), (KStr ''sensitivity'', PNum (3 / 2)),
       (KStr ''invert_y'', PBool True)]\<rparr>"
  let ?d = "\<lparr>dev_name = ''pad'', dev_buttons = [], dev_axes = [1 / 10, 1 / 2, 0, 0, 0, - 1],
       dev_hats = []\<rparr>"
  have s: "getitem (analog_settings ?m) ''sensitivity'' = Inr (PNum (3 / 2))" by simp
  have y: "getitem (analog_settings ?m) ''invert_y'' = Inr (PBool True)" by simp
  have l0: "0 < length (dev_axes ?d)" by simp
  have l1: "1 < length (dev_axes ?d)" by simp
  have l5: "5 < length (dev_axes ?d)" by simp
  have v0: "1 / 10 = dev_axes ?d ! 0" by simp
  have v1: "1 / 2 = dev_axes ?d ! 1" by simp
  have v5: "- 1 = dev_axes ?d ! 5" by simp
  have a0: "\<forall>x. AxisMoved 0 x \<notin> set (fst (poll init_worker (Some ?d)))"
    using axis_event_pipeline [OF s y l0 v0, of init_worker]
    by (simp add: init_worker_def)
  have a1: "deliver ?m (AxisMoved 1 (1 / 2)) = Inr (?m, [NamedAxis ''left_y'' (- (3 / 4))])"
    using axis_event_pipeline [OF s y l1 v1, of init_worker]
    by (simp add: init_worker_def)
  have a5: "deliver ?m (AxisMoved 5 (- 1)) = Inr (?m, [NamedAxis ''axis_5'' (- (3 / 2))])"
    using axis_event_pipeline [OF s y l5 v5, of init_worker]
    by (simp add: init_worker_def str_int_def str_nat.simps)
  from s a0 a1 a5 show ?thesis by simp
qed

text \<open>
  The poller's deadzone and the configured one. \<open>set_deadzone\<close> copies the clamped
  value into a worker that exists; \<open>start\<close> builds the worker with 0.2 whatever the
  settings hold, and neither \<open>reset_to_defaults\<close> nor \<open>load_profile\<close> touches the
  worker.
\<close>

lemma set_deadzone_syncs_worker:
  assumes "analog_settings m = PDict kvs" and "worker m = Some w"
  shows "\<exists>m'. set_deadzone m v = Inr m' \<and>
           getitem (analog_settings m') ''deadzone'' = Inr (PNum (max 0 (min (1 / 2) v))) \<and>
           worker m' = Some (w\<lparr>deadzone := max 0 (min (1 / 2) v)\<rparr>)"
  using assms by (simp add: set_deadzone_def Let_def update_conv')

lemma start_worker:
  "worker (start m) = Some init_worker \<and> deadzone init_worker = 2 / 10 \<and>
   analog_settings (start m) = analog_settings m"
  by (simp add: start_def init_worker_def)

lemma reset_keeps_worker: "worker (reset_to_defaults m) = worker m"
  by (simp add: reset_to_defaults_def)

lemma load_profile_keeps_worker: "load_profile config m name = Inr m' \<Longrightarrow> worker m' = worker m"
  by (auto simp: load_profile_def split: option.splits sum.splits if_splits)

text \<open>
  C3, evaluated where the code departs from it. \<open>set_deadzone(0.05)\<close> on a new manager
  stores 0.05 as the configured deadzone; \<open>start()\<close> then builds a worker whose deadzone
  is 0.2. An axis at 0.1 exceeds the configured deadzone, yet the polling loop emits no
  axis event for it. In the other order, \<open>start()\<close> and then \<open>set_deadzone(0.05)\<close>, the
  worker receives 0.05 and the same axis value is emitted.
\<close>

theorem deadzone_not_synced:
  "set_deadzone new_manager (5 / 100) =
     Inr (new_manager\<lparr>analog_settings := PDict
       [(KStr ''deadzone'', PNum (5 / 100)), (KStr ''sensitivity'', PNum 1),
        (KStr ''invert_y'', PBool False)]\<rparr>) \<and>
   getitem (analog_settings (start (new_manager\<lparr>analog_settings := PDict
       [(KStr ''deadzone'', PNum (5 / 100)), (KStr ''sensitivity'', PNum 1),
        (KStr ''invert_y'', PBool False)]\<rparr>))) ''deadzone'' = Inr (PNum (5 / 100)) \<and>
   worker (start (new_manager\<lparr>analog_settings := PDict
       [(KStr ''deadzone'', PNum (5 / 100)), (KStr ''sensitivity'', PNum 1),
        (KStr ''invert_y'', PBool False)]\<rparr>)) = Some init_worker \<and>
   (5 / 100 :: real) < \<bar>1 / 10\<bar> \<and>
   fst (poll init_worker
     (Some \<lparr>dev_name = ''pad'', dev_buttons = [], dev_axes = [1 / 10], dev_hats = []\<rparr>)) =
     [Connected ''pad''] \<and>
   set_deadzone (start new_manager) (5 / 100) =
     Inr (new_manager\<lparr>analog_settings := PDict
       [(KStr ''deadzone'', PNum (5 / 100)), (KStr ''sensitivity'', PNum 1),
        (KStr ''invert_y'', PBool False)],
       worker := Some (init_worker\<lparr>deadzone := 5 / 100\<rparr>)\<rparr>) \<and>
   fst (poll (init_worker\<lparr>deadzone := 5 / 100\<rparr>)
     (Some \<lparr>dev_name = ''pad'', dev_buttons = [], dev_axes = [1 / 10], dev_hats = []\<rparr>)) =
     [Connected ''pad'', AxisMoved 0 (1 / 10)]"
  by (simp add: set_deadzone_def start_def new_manager_def default_analog_settings_def
      init_worker_def poll_def Let_def)

section \<open>Analog settings\<close>

lemma getitem_update_same:
  "getitem (PDict (AList.update (KStr k) x kvs)) k = Inr x"
  by (simp add: update_conv')

lemma getitem_update_other:
  "k' \<noteq> k \<Longrightarrow>
   getitem (PDict (AList.update (KStr k) x kvs)) k' = getitem (PDict kvs) k'"
  by (simp add: update_conv')

lemma set_deadzone_dict:
  assumes "analog_settings m = PDict kvs"
  shows "set_deadzone m v =
     Inr (m\<lparr>analog_settings := PDict (AList.update (KStr ''deadzone'') (PNum (max 0 (min (1 / 2) v))) kvs),
            worker := (case worker m of None \<Rightarrow> None
                       | Some w \<Rightarrow> Some (w\<lparr>deadzone := max 0 (min (1 / 2) v)\<rparr>))\<rparr>)"
  using assms by (simp add: set_deadzone_def Let_def)

lemma set_sensitivity_dict:
  assumes "analog_settings m = PDict kvs"
  shows "set_sensitivity m v =
     Inr (m\<lparr>analog_settings := PDict (AList.update (KStr ''sensitivity'') (PNum (max (1 / 2) (min 2 v))) kvs)\<rparr>)"
  using assms by (simp add: set_sensitivity_def)

lemma analog_in_rangeI:
  "getitem (analog_settings m) ''deadzone'' = Inr (PNum d) \<Longrightarrow>
   getitem (analog_settings m) ''sensitivity'' = Inr (PNum s) \<Longrightarrow>
   0 \<le> d \<Longrightarrow> d \<le> 1 / 2 \<Longrightarrow> 1 / 2 \<le> s \<Longrightarrow> s \<le> 2 \<Longrightarrow> analog_in_range m"
  by (simp add: analog_in_range_def)

lemma analog_in_rangeD:
  assumes "analog_in_range m"
  shows "\<exists>d s. getitem (analog_settings m) ''deadzone'' = Inr (PNum d) \<and>
               getitem (analog_settings m) ''sensitivity'' = Inr (PNum s) \<and>
               0 \<le> d \<and> d \<le> 1 / 2 \<and> 1 / 2 \<le> s \<and> s \<le> 2"
proof (cases "getitem (analog_settings m) ''deadzone''")
  case (Inl e)
  then show ?thesis using assms by (simp add: analog_in_range_def)
next
  case (Inr x)
  note dz = Inr
  show ?thesis
  proof (cases x)
    case (PNum d)
    show ?thesis
    proof (cases "getitem (analog_settings m) ''sensitivity''")
      case (Inl e)
      then show ?thesis using assms dz PNum by (simp add: analog_in_range_def)
    next
      case (Inr y)
      then show ?thesis using assms dz PNum
        by (cases y) (simp_all add: analog_in_range_def)
    qed
  qed (use assms dz in \<open>simp_all add: analog_in_range_def\<close>)
qed

lemma set_deadzone_keeps_range:
  assumes "analog_settings m = PDict kvs" and "set_deadzone m v = Inr m'" and "analog_in_range m"
  shows "analog_in_range m'"
proof -
  have m': "analog_settings m' = PDict (AList.update (KStr ''deadzone'') (PNum (max 0 (min (1 / 2) v))) kvs)"
    using set_deadzone_dict [OF assms(1), of v] assms(2) by auto
  have s: "getitem (analog_settings m') ''sensitivity'' = getitem (analog_settings m) ''sensitivity''"
    unfolding m' assms(1) by (rule getitem_update_other) simp
  have d: "getitem (analog_settings m') ''deadzone'' = Inr (PNum (max 0 (min (1 / 2) v)))"
    unfolding m' by (rule getitem_update_same)
  from analog_in_rangeD [OF assms(3)] obtain s0 where
    s0: "getitem (analog_settings m) ''sensitivity'' = Inr (PNum s0)" "1 / 2 \<le> s0" "s0 \<le> 2"
    by blast
  show ?thesis
    by (rule analog_in_rangeI [OF d s [unfolded s0(1)]]) (use s0 in simp_all)
qed

lemma set_sensitivity_keeps_range:
  assumes "analog_settings m = PDict kvs" and "set_sensitivity m v = Inr m'" and "analog_in_range m"
  shows "analog_in_range m'"
proof -
  have m': "analog_settings m' = PDict (AList.update (KStr ''sensitivity'') (PNum (max (1 / 2) (min 2 v))) kvs)"
    using set_sensitivity_dict [OF assms(1), of v] assms(2) by auto
  have d: "getitem (analog_settings m') ''deadzone'' = getitem (analog_settings m) ''deadzone''"
    unfolding m' assms(1) by (rule getitem_update_other) simp
  have s: "getitem (analog_settings m') ''sensitivity'' = Inr (PNum (max (1 / 2) (min 2 v)))"
    unfolding m' by (rule getitem_update_same)
  from analog_in_rangeD [OF assms(3)] obtain d0 where
    d0: "getitem (analog_settings m) ''deadzone'' = Inr (PNum d0)" "0 \<le> d0" "d0 \<le> 1 / 2"
    by blast
  show ?thesis
    by (rule analog_in_rangeI [OF d [unfolded d0(1)] s]) (use d0 in simp_all)
qed

lemma reset_in_range: "analog_in_range (reset_to_defaults m)"
  by (simp add: analog_in_range_def reset_to_defaults_def default_analog_settings_def)

lemma load_profile_dict:
  assumes "get_gamepad_profile c name = Inr (PDict p)" and "p \<noteq> []"
  shows "load_profile (Some c) m name =
     Inr (m\<lparr>mappings := (case map_of p (KStr ''buttons'') of Some b \<Rightarrow> b | None \<Rightarrow> DEFAULT_MAPPINGS),
            analog_settings := (case map_of p (KStr ''analog'') of Some a \<Rightarrow> a | None \<Rightarrow> analog_settings m)\<rparr>)"
  using assms by (simp add: load_profile_def)


text \<open>The writes to the analog settings of a manager whose settings are a dictionary.\<close>

lemma analog_writes_dict:
  assumes "analog_settings m = PDict kvs"
  shows "(\<forall>v. \<exists>m' d. set_deadzone m v = Inr m' \<and>
            getitem (analog_settings m') ''deadzone'' = Inr (PNum d) \<and>
            d = max 0 (min (1 / 2) v) \<and> 0 \<le> d \<and> d \<le> 1 / 2 \<and>
            (analog_in_range m \<longrightarrow> analog_in_range m')) \<and>
         (\<forall>v. \<exists>m' s. set_sensitivity m v = Inr m' \<and>
            getitem (analog_settings m') ''sensitivity'' = Inr (PNum s) \<and>
            s = max (1 / 2) (min 2 v) \<and> 1 / 2 \<le> s \<and> s \<le> 2 \<and>
            (analog_in_range m \<longrightarrow> analog_in_range m')) \<and>
         analog_in_range (reset_to_defaults m) \<and>
         (\<exists>m'. set_deadzone m (9 / 10) = Inr m' \<and>
            getitem (analog_settings m') ''deadzone'' = Inr (PNum (1 / 2))) \<and>
         (\<exists>m'. set_deadzone m (- 1) = Inr m' \<and>
            getitem (analog_settings m') ''deadzone'' = Inr (PNum 0)) \<and>
         (\<forall>c name p a. get_gamepad_profile c name = Inr (PDict p) \<longrightarrow>
            map_of p (KStr ''analog'') = Some a \<longrightarrow>
            (\<exists>m'. load_profile (Some c) m name = Inr m' \<and> analog_settings m' = a))"
proof -
  have dz: "\<exists>m' d. set_deadzone m v = Inr m' \<and>
            getitem (analog_settings m') ''deadzone'' = Inr (PNum d) \<and>
            d = max 0 (min (1 / 2) v) \<and> 0 \<le> d \<and> d \<le> 1 / 2 \<and>
            (analog_in_range m \<longrightarrow> analog_in_range m')" for v
  proof -
    let ?m' = "m\<lparr>analog_settings :=
        PDict (AList.update (KStr ''deadzone'') (PNum (max 0 (min (1 / 2) v))) kvs),
        worker := (case worker m of None \<Rightarrow> None
                   | Some w \<Rightarrow> Some (w\<lparr>deadzone := max 0 (min (1 / 2) v)\<rparr>))\<rparr>"
    have eq: "set_deadzone m v = Inr ?m'" by (rule set_deadzone_dict [OF assms])
    have get: "getitem (analog_settings ?m') ''deadzone'' = Inr (PNum (max 0 (min (1 / 2) v)))"
      by (simp add: update_conv')
    have keep: "analog_in_range m \<longrightarrow> analog_in_range ?m'"
      using set_deadzone_keeps_range [OF assms eq] by simp
    have lo: "0 \<le> max 0 (min (1 / 2) v)" by simp
    have hi: "max 0 (min (1 / 2) v) \<le> 1 / 2" by simp
    from eq get keep lo hi show ?thesis by blast
  qed
  have sens: "\<exists>m' s. set_sensitivity m v = Inr m' \<and>
            getitem (analog_settings m') ''sensitivity'' = Inr (PNum s) \<and>
            s = max (1 / 2) (min 2 v) \<and> 1 / 2 \<le> s \<and> s \<le> 2 \<and>
            (analog_in_range m \<longrightarrow> analog_in_range m')" for v
  proof -
    let ?m' = "m\<lparr>analog_settings :=
        PDict (AList.update (KStr ''sensitivity'') (PNum (max (1 / 2) (min 2 v))) kvs)\<rparr>"
    have eq: "set_sensitivity m v = Inr ?m'" by (rule set_sensitivity_dict [OF assms])
    have get: "getitem (analog_settings ?m') ''sensitivity'' = Inr (PNum (max (1 / 2) (min 2 v)))"
      by (simp add: update_conv')
    have keep: "analog_in_range m \<longrightarrow> analog_in_range ?m'"
      using set_sensitivity_keeps_range [OF assms eq] by simp
    have lo: "1 / 2 \<le> max (1 / 2) (min 2 v)" by simp
    have hi: "max (1 / 2) (min 2 v) \<le> 2" by simp
    from eq get keep lo hi show ?thesis by blast
  qed
  have hi_ex: "\<exists>m'. set_deadzone m (9 / 10) = Inr m' \<and>
            getitem (analog_settings m') ''deadzone'' = Inr (PNum (1 / 2))"
    using dz [of "9 / 10"] by auto
  have lo_ex: "\<exists>m'. set_deadzone m (- 1) = Inr m' \<and>
            getitem (analog_settings m') ''deadzone'' = Inr (PNum 0)"
    using dz [of "- 1"] by auto
  have load: "\<forall>c name p a. get_gamepad_profile c name = Inr (PDict p) \<longrightarrow>
            map_of p (KStr ''analog'') = Some a \<longrightarrow>
            (\<exists>m'. load_profile (Some c) m name = Inr m' \<and> analog_settings m' = a)"
  proof (intro allI impI)
    fix c name p a
    assume g: "get_gamepad_profile c name = Inr (PDict p)"
      and a: "map_of p (KStr ''analog'') = Some a"
    from a have "p \<noteq> []" by auto
    from load_profile_dict [OF g this, of m] a
    show "\<exists>m'. load_profile (Some c) m name = Inr m' \<and> analog_settings m' = a" by simp
  qed
  from dz sens reset_in_range [of m] hi_ex lo_ex load show ?thesis by blast
qed

lemma reset_values:
  "getitem (analog_settings (reset_to_defaults m)) ''deadzone'' = Inr (PNum (2 / 10)) \<and>
   getitem (analog_settings (reset_to_defaults m)) ''sensitivity'' = Inr (PNum 1)"
  by (simp add: reset_to_defaults_def default_analog_settings_def)

text \<open>
  C4 (as amended). While the manager's analog settings are a dictionary,
  \<open>set_deadzone\<close> stores its argument clamped to [0, 0.5] and \<open>set_sensitivity\<close> stores
  its argument clamped to [0.5, 2.0]; out-of-range input is clamped, never rejected
  (\<open>set_deadzone(0.9)\<close> stores 0.5 and \<open>set_deadzone(-1)\<close> stores 0.0), and each setter
  keeps both values in range when they were. In every state \<open>reset_to_defaults\<close>
  stores deadzone 0.2 and sensitivity 1.0. \<open>load_profile\<close>, when the loaded profile is an
  object with an \<open>analog\<close> entry, stores that entry as it is persisted, without clamping.
\<close>

theorem analog_writes:
  "(\<forall>kvs v. analog_settings m = PDict kvs \<longrightarrow>
      (\<exists>m' d. set_deadzone m v = Inr m' \<and>
         getitem (analog_settings m') ''deadzone'' = Inr (PNum d) \<and>
         d = max 0 (min (1 / 2) v) \<and> 0 \<le> d \<and> d \<le> 1 / 2 \<and>
         (analog_in_range m \<longrightarrow> analog_in_range m'))) \<and>
   (\<forall>kvs v. analog_settings m = PDict kvs \<longrightarrow>
      (\<exists>m' s. set_sensitivity m v = Inr m' \<and>
         getitem (analog_settings m') ''sensitivity'' = Inr (PNum s) \<and>
         s = max (1 / 2) (min 2 v) \<and> 1 / 2 \<le> s \<and> s \<le> 2 \<and>
         (analog_in_range m \<longrightarrow> analog_in_range m'))) \<and>
   (\<forall>kvs. analog_settings m = PDict kvs \<longrightarrow>
      (\<exists>m'. set_deadzone m (9 / 10) = Inr m' \<and>
         getitem (analog_settings m') ''deadzone'' = Inr (PNum (1 / 2))) \<and>
      (\<exists>m'. set_deadzone m (- 1) = Inr m' \<and>
         getitem (analog_settings m') ''deadzone'' = Inr (PNum 0))) \<and>
   getitem (analog_settings (reset_to_defaults m)) ''deadzone'' = Inr (PNum (2 / 10)) \<and>
   getitem (analog_settings (reset_to_defaults m)) ''sensitivity'' = Inr (PNum 1) \<and>
   analog_in_range (reset_to_defaults m) \<and>
   (\<forall>c name p a. get_gamepad_profile c name = Inr (PDict p) \<longrightarrow>
      map_of p (KStr ''analog'') = Some a \<longrightarrow>
      (\<exists>m'. load_profile (Some c) m name = Inr m' \<and> analog_settings m' = a))"
proof -
  have dz: "\<forall>kvs v. analog_settings m = PDict kvs \<longrightarrow>
      (\<exists>m' d. set_deadzone m v = Inr m' \<and>
         getitem (analog_settings m') ''deadzone'' = Inr (PNum d) \<and>
         d = max 0 (min (1 / 2) v) \<and> 0 \<le> d \<and> d \<le> 1 / 2 \<and>
         (analog_in_range m \<longrightarrow> analog_in_range m'))"
  proof (intro allI impI)
    fix kvs v
    assume "analog_settings m = PDict kvs"
    from analog_writes_dict [OF this, THEN conjunct1, THEN spec]
    show "\<exists>m' d. set_deadzone m v = Inr m' \<and>
         getitem (analog_settings m') ''deadzone'' = Inr (PNum d) \<and>
         d = max 0 (min (1 / 2) v) \<and> 0 \<le> d \<and> d \<le> 1 / 2 \<and>
         (analog_in_range m \<longrightarrow> analog_in_range m')" .
  qed
  have sens: "\<forall>kvs v. analog_settings m = PDict kvs \<longrightarrow>
      (\<exists>m' s. set_sensitivity m v = Inr m' \<and>
         getitem (analog_settings m') ''sensitivity'' = Inr (PNum s) \<and>
         s = max (1 / 2) (min 2 v) \<and> 1 / 2 \<le> s \<and> s \<le> 2 \<and>
         (analog_in_range m \<longrightarrow> analog_in_range m'))"
  proof (intro allI impI)
    fix kvs v
    assume "analog_settings m = PDict kvs"
    from analog_writes_dict [OF this, THEN conjunct2, THEN conjunct1, THEN spec]
    show "\<exists>m' s. set_sensitivity m v = Inr m' \<and>
         getitem (analog_settings m') ''sensitivity'' = Inr (PNum s) \<and>
         s = max (1 / 2) (min 2 v) \<and> 1 / 2 \<le> s \<and> s \<le> 2 \<and>
         (analog_in_range m \<longrightarrow> analog_in_range m')" .
  qed
  have ex: "\<forall>kvs. analog_settings m = PDict kvs \<longrightarrow>
      (\<exists>m'. set_deadzone m (9 / 10) = Inr m' \<and>
         getitem (analog_settings m') ''deadzone'' = Inr (PNum (1 / 2))) \<and>
      (\<exists>m'. set_deadzone m (- 1) = Inr m' \<and>
         getitem (analog_settings m') ''deadzone'' = Inr (PNum 0))"
  proof (intro allI impI)
    fix kvs
    assume a: "analog_settings m = PDict kvs"
    note w = analog_writes_dict [OF a]
    show "(\<exists>m'. set_deadzone m (9 / 10) = Inr m' \<and>
         getitem (analog_settings m') ''deadzone'' = Inr (PNum (1 / 2))) \<and>
      (\<exists>m'. set_deadzone m (- 1) = Inr m' \<and>
         getitem (analog_settings m') ''deadzone'' = Inr (PNum 0))"
      by (rule conjI)
         (rule w [THEN conjunct2, THEN conjunct2, THEN conjunct2, THEN conjunct1],
          rule w [THEN conjunct2, THEN conjunct2, THEN conjunct2, THEN conjunct2, THEN conjunct1])
  qed
  have load: "\<forall>c name p a. get_gamepad_profile c name = Inr (PDict p) \<longrightarrow>
      map_of p (KStr ''analog'') = Some a \<longrightarrow>
      (\<exists>m'. load_profile (Some c) m name = Inr m' \<and> analog_settings m' = a)"
  proof (intro allI impI)
    fix c name p a
    assume g: "get_gamepad_profile c name = Inr (PDict p)"
      and a: "map_of p (KStr ''analog'') = Some a"
    from a have "p \<noteq> []" by auto
    from load_profile_dict [OF g this, of m] a
    show "\<exists>m'. load_profile (Some c) m name = Inr m' \<and> analog_settings m' = a" by simp
  qed
  show ?thesis
    by (intro conjI dz sens ex reset_values [THEN conjunct1] reset_values [THEN conjunct2]
          reset_in_range load)
qed

theorem analog_writes_witness:
  "analog_settings new_manager = default_analog_settings \<and>
   analog_in_range new_manager \<and>
   (\<exists>m'. set_deadzone new_manager (9 / 10) = Inr m' \<and>
      getitem (analog_settings m') ''deadzone'' = Inr (PNum (1 / 2)) \<and>
      analog_in_range m') \<and>
   (\<exists>m'. set_sensitivity new_manager 7 = Inr m' \<and>
      getitem (analog_settings m') ''sensitivity'' = Inr (PNum 2) \<and>
      analog_in_range m') \<and>
   (\<exists>m'. load_profile (Some example_store) new_manager (Some ''racing'') = Inr m' \<and>
      getitem (analog_settings m') ''deadzone'' = Inr (PNum (9 / 10)))"
proof -
  have a: "analog_settings new_manager = PDict
     [(KStr ''deadzone'', PNum (2 / 10)), (KStr ''sensitivity'', PNum 1),
      (KStr ''invert_y'', PBool False)]"
    by (simp add: new_manager_def default_analog_settings_def)
  have r: "analog_in_range new_manager"
    by (simp add: analog_in_range_def new_manager_def default_analog_settings_def)
  have g: "get_gamepad_profile example_store (Some ''racing'') = Inr (PDict
            [(KStr ''name'', PStr ''racing''),
             (KStr ''analog'', PDict
                [(KStr ''deadzone'', PNum (9 / 10)), (KStr ''sensitivity'', PNum 3),
                 (KStr ''invert_y'', PBool True)])])"
    by (simp add: get_gamepad_profile_def example_store_def profile_path_def)
  have an: "map_of [(KStr ''name'', PStr ''racing''),
             (KStr ''analog'', PDict
                [(KStr ''deadzone'', PNum (9 / 10)), (KStr ''sensitivity'', PNum 3),
                 (KStr ''invert_y'', PBool True)])] (KStr ''analog'') =
        Some (PDict
                [(KStr ''deadzone'', PNum (9 / 10)), (KStr ''sensitivity'', PNum 3),
                 (KStr ''invert_y'', PBool True)])"
    by simp
  note w = analog_writes [of new_manager]
  have d: "\<exists>m'. set_deadzone new_manager (9 / 10) = Inr m' \<and>
      getitem (analog_settings m') ''deadzone'' = Inr (PNum (1 / 2)) \<and> analog_in_range m'"
    using w [THEN conjunct1, THEN spec, THEN spec, THEN mp, OF a, of "9 / 10"] r by auto
  have s: "\<exists>m'. set_sensitivity new_manager 7 = Inr m' \<and>
      getitem (analog_settings m') ''sensitivity'' = Inr (PNum 2) \<and> analog_in_range m'"
    using w [THEN conjunct2, THEN conjunct1, THEN spec, THEN spec, THEN mp, OF a, of 7] r
    by auto
  have l: "\<exists>m'. load_profile (Some example_store) new_manager (Some ''racing'') = Inr m' \<and>
      getitem (analog_settings m') ''deadzone'' = Inr (PNum (9 / 10))"
    using w [THEN conjunct2, THEN conjunct2, THEN conjunct2, THEN conjunct2, THEN conjunct2,
             THEN conjunct2, THEN spec, THEN spec, THEN spec, THEN spec, THEN mp, THEN mp,
             OF g an] by auto
  have a': "analog_settings new_manager = default_analog_settings"
    by (simp add: new_manager_def)
  show ?thesis by (intro conjI a' r d s l)
qed

text \<open>
  C4 as stated fails for \<open>load_profile\<close>: loading a stored profile whose analog settings
  hold deadzone 0.9 and sensitivity 3 succeeds and leaves exactly these values in the
  manager, outside [0, 0.5] and [0.5, 2.0]. And after loading a profile whose \<open>analog\<close>
  entry is \<open>null\<close> the settings are not a dictionary, and \<open>set_deadzone\<close> rejects its
  input with TypeError.
\<close>

theorem load_profile_unclamped_counterexample:
  "load_profile (Some example_store) new_manager (Some ''racing'') =
     Inr (new_manager\<lparr>mappings := DEFAULT_MAPPINGS, analog_settings := PDict
            [(KStr ''deadzone'', PNum (9 / 10)), (KStr ''sensitivity'', PNum 3),
             (KStr ''invert_y'', PBool True)]\<rparr>) \<and>
   getitem (analog_settings (new_manager\<lparr>mappings := DEFAULT_MAPPINGS, analog_settings := PDict
            [(KStr ''deadzone'', PNum (9 / 10)), (KStr ''sensitivity'', PNum 3),
             (KStr ''invert_y'', PBool True)]\<rparr>)) ''deadzone'' = Inr (PNum (9 / 10)) \<and>
   \<not> (9 / 10 \<le> (5 / 10 :: real)) \<and>
   getitem (analog_settings (new_manager\<lparr>mappings := DEFAULT_MAPPINGS, analog_settings := PDict
            [(KStr ''deadzone'', PNum (9 / 10)), (KStr ''sensitivity'', PNum 3),
             (KStr ''invert_y'', PBool True)]\<rparr>)) ''sensitivity'' = Inr (PNum 3) \<and>
   \<not> (3 \<le> (2 :: real)) \<and>
   \<not> analog_in_range (new_manager\<lparr>mappings := DEFAULT_MAPPINGS, analog_settings := PDict
            [(KStr ''deadzone'', PNum (9 / 10)), (KStr ''sensitivity'', PNum 3),
             (KStr ''invert_y'', PBool True)]\<rparr>) \<and>
   load_profile (Some example_store) new_manager (Some ''bare'') =
     Inr (new_manager\<lparr>mappings := DEFAULT_MAPPINGS, analog_settings := PNone\<rparr>) \<and>
   set_deadzone (new_manager\<lparr>mappings := DEFAULT_MAPPINGS, analog_settings := PNone\<rparr>)
     (9 / 10) = Inl TypeError \<and>
   set_sensitivity (new_manager\<lparr>mappings := DEFAULT_MAPPINGS, analog_settings := PNone\<rparr>)
     3 = Inl TypeError"
  by (simp add: load_profile_def get_gamepad_profile_def example_store_def profile_path_def
        analog_in_range_def set_deadzone_def set_sensitivity_def)

section \<open>Button presses and loaded profiles\<close>

text \<open>What \<open>_on_button_pressed\<close> does with a dictionary: it looks the int index up.\<close>

lemma on_button_pressed_dict:
  "mappings m = PDict kvs \<Longrightarrow>
   on_button_pressed m i =
     Inr (case map_of kvs (KInt i) of
            Some a \<Rightarrow> if a \<noteq> PStr ''none'' then [ActionTriggered i a] else []
          | None \<Rightarrow> [])"
  by (simp add: on_button_pressed_def split: option.splits)

lemma roundtrip_builtin: "json_roundtrip (builtin_profile t dz) = builtin_profile t dz"
  by (simp add: builtin_profile_def builtin_buttons_def json_object_def key_str_def)

lemma default_store:
  "map_of (profiles_dir (create_default_profiles empty_store)) ''default.json'' =
     Some (Json (builtin_profile ''Default (Steam Deck)'' (2 / 10)))"
  by (simp add: create_default_profiles_def defaults_def empty_store_def exists_def
        save_gamepad_profile_def profile_path_def roundtrip_builtin)

text \<open>
  A profile written by \<open>save_profile\<close> has only str keys, so once it is loaded no int
  index is found in the mapping: every button press is silent.
\<close>

lemma json_object_fold_keys:
  "\<forall>k\<in>fst ` set acc. \<exists>s. k = KStr s \<Longrightarrow>
   \<forall>k\<in>fst ` set (foldl (\<lambda>acc (k, v). AList.update (KStr (key_str k)) v acc) acc kvs).
      \<exists>s. k = KStr s"
proof (induction kvs arbitrary: acc)
  case Nil
  then show ?case by simp
next
  case (Cons kv kvs)
  obtain k v where kv: "kv = (k, v)" by (cases kv)
  have "\<forall>k'\<in>fst ` set (AList.update (KStr (key_str k)) v acc). \<exists>s. k' = KStr s"
    using Cons.prems by (auto simp: dom_update)
  from Cons.IH [OF this] show ?case by (simp add: kv)
qed

lemma json_object_no_int_key: "map_of (json_object kvs) (KInt i) = None"
proof -
  have "\<forall>k\<in>fst ` set (json_object kvs). \<exists>s. k = KStr s"
    unfolding json_object_def by (rule json_object_fold_keys) simp
  then have "KInt i \<notin> fst ` set (json_object kvs)" by blast
  then show ?thesis by (simp add: map_of_eq_None_iff)
qed

lemma save_then_load_loses_buttons:
  assumes "mappings m = PDict kvs"
  shows "\<exists>c' m'. save_profile (Some c) m name = Some c' \<and>
           load_profile (Some c') m0 (Some name) = Inr m' \<and>
           (\<forall>i. on_button_pressed m' i = Inr [])"
proof -
  let ?p = "PDict [(KStr ''name'', PStr name), (KStr ''buttons'', mappings m),
                   (KStr ''analog'', analog_settings m)]"
  let ?c' = "save_gamepad_profile c name ?p"
  let ?b = "PDict (json_object (map (map_prod id json_roundtrip) kvs))"
  have sv: "save_profile (Some c) m name = Some ?c'" by (simp add: save_profile_def)
  have rt: "json_roundtrip ?p =
      PDict [(KStr ''name'', PStr name), (KStr ''buttons'', ?b),
             (KStr ''analog'', json_roundtrip (analog_settings m))]"
    by (simp add: assms json_object_def key_str_def)
  have stored: "map_of (profiles_dir ?c') (profile_path name) = Some (Json (json_roundtrip ?p))"
    by (simp add: save_gamepad_profile_def update_conv')
  have g: "get_gamepad_profile ?c' (Some name) = Inr (json_roundtrip ?p)"
    by (simp add: get_gamepad_profile_def stored)
  let ?m' = "m0\<lparr>mappings := ?b, analog_settings := json_roundtrip (analog_settings m)\<rparr>"
  have g': "get_gamepad_profile ?c' (Some name) =
      Inr (PDict [(KStr ''name'', PStr name), (KStr ''buttons'', ?b),
                  (KStr ''analog'', json_roundtrip (analog_settings m))])"
    using g rt by simp
  have ld: "load_profile (Some ?c') m0 (Some name) = Inr ?m'"
    using load_profile_dict [OF g', of m0] by simp
  have "on_button_pressed ?m' i = Inr []" for i
    by (simp add: on_button_pressed_def json_object_no_int_key)
  with sv ld show ?thesis by blast
qed

text \<open>
  C2, evaluated where the code departs from it. A manager built on a fresh store loads
  the built-in profile \<open>default\<close>, which maps button \<open>"0"\<close> to \<open>select\<close>. The active
  mapping then has the str key \<open>"0"\<close>, the slot looks up the int 0, and pressing
  button 0 triggers no action; a manager without a store, which keeps
  \<open>DEFAULT_MAPPINGS\<close>, triggers \<open>select\<close>.
\<close>

theorem loaded_profile_button_press:
  "init_manager (Some (create_default_profiles empty_store)) =
     Inr (new_manager\<lparr>mappings := builtin_buttons, analog_settings := PDict
         [(KStr ''deadzone'', PNum (2 / 10)), (KStr ''sensitivity'', PNum 1),
          (KStr ''invert_y'', PBool False)]\<rparr>) \<and>
   dict_get builtin_buttons (KStr (str_int 0)) (PStr ''none'') = Inr (PStr ''select'') \<and>
   on_button_pressed (new_manager\<lparr>mappings := builtin_buttons, analog_settings := PDict
         [(KStr ''deadzone'', PNum (2 / 10)), (KStr ''sensitivity'', PNum 1),
          (KStr ''invert_y'', PBool False)]\<rparr>) 0 = Inr [] \<and>
   on_button_pressed new_manager 0 = Inr [ActionTriggered 0 (PStr ''select'')]"
proof -
  have ap: "active_profile (create_default_profiles empty_store) = Some ''default''"
    by (simp add: create_default_profiles_def defaults_def empty_store_def exists_def
        save_gamepad_profile_def profile_path_def)
  have g: "get_gamepad_profile (create_default_profiles empty_store) None =
      Inr (builtin_profile ''Default (Steam Deck)'' (2 / 10))"
    by (simp add: get_gamepad_profile_def ap default_store profile_path_def)
  have init: "init_manager (Some (create_default_profiles empty_store)) =
     Inr (new_manager\<lparr>mappings := builtin_buttons, analog_settings := PDict
         [(KStr ''deadzone'', PNum (2 / 10)), (KStr ''sensitivity'', PNum 1),
          (KStr ''invert_y'', PBool False)]\<rparr>)"
    by (simp add: init_manager_def load_profile_def g builtin_profile_def)
  have shown: "dict_get builtin_buttons (KStr (str_int 0)) (PStr ''none'') = Inr (PStr ''select'')"
    by (simp add: builtin_buttons_def str_int_def str_nat.simps)
  have silent: "on_button_pressed (new_manager\<lparr>mappings := builtin_buttons,
      analog_settings := PDict
         [(KStr ''deadzone'', PNum (2 / 10)), (KStr ''sensitivity'', PNum 1),
          (KStr ''invert_y'', PBool False)]\<rparr>) 0 = Inr []"
    by (simp add: on_button_pressed_def builtin_buttons_def)
  have dflt: "on_button_pressed new_manager 0 = Inr [ActionTriggered 0 (PStr ''select'')]"
    by (simp add: on_button_pressed_def new_manager_def DEFAULT_MAPPINGS_def)
  from init shown silent dflt show ?thesis by simp
qed

section \<open>Loading a missing or unreadable profile\<close>

text \<open>
  C7 (as amended). When the file of the requested profile is missing, or holds text that
  is not valid JSON (\<open>json.load\<close> raises JSONDecodeError), \<open>load_profile\<close> returns
  normally and leaves the manager exactly as it was: its mapping and analog settings are
  unchanged. The same holds when no name is given and the file of the active profile is
  missing or not valid JSON; in the constructor, where the manager holds the defaults
  when the active profile is loaded, it therefore keeps the built-in default mapping and
  the default analog settings.
\<close>

theorem load_profile_missing_or_unparsable:
  "(map_of (profiles_dir c) (profile_path name) = None \<or>
    map_of (profiles_dir c) (profile_path name) = Some NotJson \<longrightarrow>
      load_profile (Some c) m (Some name) = Inr m) \<and>
   (map_of (profiles_dir c)
      (profile_path (case active_profile c of None \<Rightarrow> ''default'' | Some a \<Rightarrow> a)) = None \<or>
    map_of (profiles_dir c)
      (profile_path (case active_profile c of None \<Rightarrow> ''default'' | Some a \<Rightarrow> a)) =
      Some NotJson \<longrightarrow>
      init_manager (Some c) = Inr new_manager \<and>
      mappings new_manager = DEFAULT_MAPPINGS \<and>
      analog_settings new_manager = default_analog_settings \<and>
      load_profile (Some c) m None = Inr m)"
proof -
  have named: "map_of (profiles_dir c) (profile_path name) = None \<or>
      map_of (profiles_dir c) (profile_path name) = Some NotJson \<longrightarrow>
      load_profile (Some c) m (Some name) = Inr m"
    by (auto simp: load_profile_def get_gamepad_profile_def)
  have active: "map_of (profiles_dir c)
      (profile_path (case active_profile c of None \<Rightarrow> ''default'' | Some a \<Rightarrow> a)) = None \<or>
    map_of (profiles_dir c)
      (profile_path (case active_profile c of None \<Rightarrow> ''default'' | Some a \<Rightarrow> a)) =
      Some NotJson \<longrightarrow>
      init_manager (Some c) = Inr new_manager \<and>
      mappings new_manager = DEFAULT_MAPPINGS \<and>
      analog_settings new_manager = default_analog_settings \<and>
      load_profile (Some c) m None = Inr m"
    by (auto simp: init_manager_def load_profile_def get_gamepad_profile_def new_manager_def)
  from named active show ?thesis by (rule conjI)
qed

theorem load_profile_missing_or_unparsable_witness:
  "map_of (profiles_dir example_store) (profile_path ''nope'') = None \<and>
   load_profile (Some example_store) remapped_manager (Some ''nope'') = Inr remapped_manager \<and>
   map_of (profiles_dir example_store) (profile_path ''broken'') = Some NotJson \<and>
   load_profile (Some example_store) remapped_manager (Some ''broken'') = Inr remapped_manager \<and>
   init_manager (Some (example_store\<lparr>active_profile := Some ''broken''\<rparr>)) = Inr new_manager"
proof -
  have a: "map_of (profiles_dir example_store) (profile_path ''nope'') = None"
    by (simp add: example_store_def profile_path_def)
  have b: "map_of (profiles_dir example_store) (profile_path ''broken'') = Some NotJson"
    by (simp add: example_store_def profile_path_def)
  have c: "map_of (profiles_dir (example_store\<lparr>active_profile := Some ''broken''\<rparr>))
      (profile_path (case active_profile (example_store\<lparr>active_profile := Some ''broken''\<rparr>) of
         None \<Rightarrow> ''default'' | Some a \<Rightarrow> a)) = Some NotJson"
    by (simp add: example_store_def profile_path_def)
  note t1 = load_profile_missing_or_unparsable
      [of example_store "''nope''" remapped_manager, THEN conjunct1, THEN mp, OF disjI1, OF a]
  note t2 = load_profile_missing_or_unparsable
      [of example_store "''broken''" remapped_manager, THEN conjunct1, THEN mp, OF disjI2, OF b]
  note t3 = load_profile_missing_or_unparsable
      [of "example_store\<lparr>active_profile := Some ''broken''\<rparr>" "''x''" new_manager,
       THEN conjunct2, THEN mp, OF disjI2, OF c, THEN conjunct1]
  show ?thesis by (intro conjI a b t1 t2 t3)
qed

text \<open>
  C7 as stated fails. After \<open>set_mapping(0, 'back')\<close>, loading a profile that is missing,
  or one whose file is not JSON, returns normally but leaves the changed mapping in
  place, which is not the built-in default mapping. And two kinds of malformed file make
  \<open>load_profile\<close> raise: a file that holds a JSON array raises AttributeError, and a
  file whose bytes are not text raises UnicodeDecodeError.
\<close>

theorem load_profile_fallback_counterexample:
  "set_mapping new_manager 0 (PStr ''back'') = Inr remapped_manager \<and>
   load_profile (Some example_store) remapped_manager (Some ''nope'') = Inr remapped_manager \<and>
   load_profile (Some example_store) remapped_manager (Some ''broken'') = Inr remapped_manager \<and>
   mappings remapped_manager \<noteq> DEFAULT_MAPPINGS \<and>
   load_profile (Some example_store) new_manager (Some ''array'') = Inl AttributeError \<and>
   load_profile (Some example_store) new_manager (Some ''binary'') = Inl UnicodeDecodeError"
  by (simp add: set_mapping_def load_profile_def get_gamepad_profile_def example_store_def
      profile_path_def remapped_manager_def new_manager_def DEFAULT_MAPPINGS_def)

section \<open>Importing a profile\<close>

text \<open>
  The failures that \<open>import_profile\<close> reports. When the import file cannot be opened or
  its text is not valid JSON (\<open>json.load\<close> raises JSONDecodeError), \<open>import_profile\<close>
  returns False and the profile store is unchanged. Whenever \<open>import_profile\<close> does not
  return True, whether it returns False or raises, the profile store is unchanged.
\<close>

lemma import_profile_failure:
  "(import_file = None \<or> import_file = Some NotJson \<longrightarrow>
      import_profile c import_file name = (c, Inr False)) \<and>
   (snd (import_profile c import_file name) \<noteq> Inr True \<longrightarrow>
      fst (import_profile c import_file name) = c)"
proof -
  have failure: "import_file = None \<or> import_file = Some NotJson \<longrightarrow>
      import_profile c import_file name = (c, Inr False)"
    by (auto simp: import_profile_def)
  have unchanged: "snd (import_profile c import_file name) \<noteq> Inr True \<longrightarrow>
      fst (import_profile c import_file name) = c"
    by (simp add: import_profile_def split: option.splits contents.splits sum.splits)
  from failure unchanged show ?thesis by (rule conjI)
qed

lemma import_profile_failure_example:
  "import_profile example_store None ''imported'' = (example_store, Inr False) \<and>
   import_profile example_store (Some NotJson) ''imported'' = (example_store, Inr False) \<and>
   snd (import_profile example_store (Some (Json (PNum 7))) ''imported'') \<noteq> Inr True \<and>
   fst (import_profile example_store (Some (Json (PNum 7))) ''imported'') = example_store"
proof -
  have n: "snd (import_profile example_store (Some (Json (PNum 7))) ''imported'') \<noteq> Inr True"
    by (simp add: import_profile_def)
  note t1 = import_profile_failure [of None example_store "''imported''",
      THEN conjunct1, THEN mp, OF disjI1, OF refl]
  note t2 = import_profile_failure [of "Some NotJson" example_store "''imported''",
      THEN conjunct1, THEN mp, OF disjI2, OF refl]
  note t3 = import_profile_failure [of "Some (Json (PNum 7))" example_store "''imported''",
      THEN conjunct2, THEN mp, OF n]
  show ?thesis by (intro conjI t1 t2 n t3)
qed

text \<open>
  C8, evaluated where the code departs from it. An import file that holds a JSON array
  is not valid profile data; \<open>import_profile\<close> does not return False but raises
  TypeError at \<open>profile['name'] = name\<close>, which the \<open>except\<close> clause does not name. An
  import file whose bytes are not text raises UnicodeDecodeError in the same way. In
  both cases nothing is written.
\<close>

theorem import_profile_raises:
  "import_profile example_store (Some (Json (PList [PNum 1, PNum 2]))) ''imported'' =
     (example_store, Inl TypeError) \<and>
   import_profile example_store (Some Undecodable) ''imported'' =
     (example_store, Inl UnicodeDecodeError)"
  by (simp add: import_profile_def)

end
